theory Spec2Isabelle
  imports Main
begin

section \<open>Python values used by the figure manager\<close>

text \<open>
  The sources are \<^verbatim>\<open>src/inkscapefigures/main.py\<close> (the package) and \<^verbatim>\<open>src/main.py\<close>
  (the script). A character of a Python string is a code point: \<open>Ch c\<close> for the code
  points below 256 and \<open>U n\<close> for the code point \<open>n\<close> from 256 on. The second form
  holds the lone surrogates U+DC80 to U+DCFF, by which the interpreter represents the
  bytes of a file name that its codec cannot decode. Python integers are modelled as
  \<^typ>\<open>int\<close>. An exception is a value \<open>Inl e\<close> of a sum type, or \<open>Some e\<close> beside
  the state that the call leaves behind.
\<close>

datatype pychar = Ch char | U nat

type_synonym pystr = "pychar list"

abbreviation str :: "string \<Rightarrow> pystr" where
  "str s \<equiv> map Ch s"

datatype error =
    IndexError
  | ValueError
  | FileNotFoundError
  | UnicodeDecodeError
  | UnicodeEncodeError
  | CalledProcessError
  | OSError
  | InotifyError
  | PyperclipException

definition NL :: pychar where
  "NL = Ch (CHR 0x0A)"

definition CR :: pychar where
  "CR = Ch (CHR 0x0D)"

definition BS :: pychar where
  "BS = Ch (CHR 0x5C)"

text \<open>
  The codec of the host (the file system encoding, which is also the one of text
  files) encodes every character but a surrogate.
\<close>

definition encodable :: "pychar \<Rightarrow> bool" where
  "encodable c = (case c of Ch _ \<Rightarrow> True | U n \<Rightarrow> \<not> (0xD800 \<le> n \<and> n \<le> 0xDFFF))"

text \<open>
  \<^verbatim>\<open>s.split(sep)\<close> for a separator of one character: always at least one field. A
  character that is not the separator is put in front of the first field of the rest.
\<close>

fun split_on :: "pychar \<Rightarrow> pystr \<Rightarrow> pystr list" where
  "split_on c [] = [[]]"
| "split_on c (x # xs) =
     (if x = c then [] # split_on c xs
      else (case split_on c xs of
              [] \<Rightarrow> [[x]]
            | field # fields \<Rightarrow> (x # field) # fields))"

text \<open>\<^verbatim>\<open>sep.join(xs)\<close>.\<close>

fun join :: "pystr \<Rightarrow> pystr list \<Rightarrow> pystr" where
  "join sep [] = []"
| "join sep [x] = x"
| "join sep (x # y # ys) = x @ sep @ join sep (y # ys)"

text \<open>\<^verbatim>\<open>s.replace(a, b)\<close> for one-character \<open>a\<close> and \<open>b\<close>.\<close>

definition replace_char :: "pychar \<Rightarrow> pychar \<Rightarrow> pystr \<Rightarrow> pystr" where
  "replace_char a b s = map (\<lambda>x. if x = a then b else x) s"

text \<open>
  \<^verbatim>\<open>s.strip()\<close>: whitespace is removed at both ends. The whitespace characters are
  those of \<^verbatim>\<open>str.isspace\<close>.
\<close>

definition is_space :: "pychar \<Rightarrow> bool" where
  "is_space c =
     (c \<in> set (map Ch [CHR 0x09, CHR 0x0A, CHR 0x0B, CHR 0x0C, CHR 0x0D, CHR 0x1C, CHR 0x1D,
                          CHR 0x1E, CHR 0x1F, CHR 0x20, CHR 0x85, CHR 0xA0]
                @ map U [0x1680, 0x2000, 0x2001, 0x2002, 0x2003, 0x2004, 0x2005, 0x2006,
                         0x2007, 0x2008, 0x2009, 0x200A, 0x2028, 0x2029, 0x202F, 0x205F,
                         0x3000]))"

definition strip :: "pystr \<Rightarrow> pystr" where
  "strip s = rev (dropWhile is_space (rev (dropWhile is_space s)))"

text \<open>
  \<^verbatim>\<open>int(part)\<close> on the parts of a run of digits and dots: such a part holds decimal
  digits only, and the empty part is refused with \<^verbatim>\<open>ValueError\<close>. Signs, blanks and
  underscores, which \<^verbatim>\<open>int\<close> would also read, cannot occur in such a part. Current
  interpreters also refuse, with \<^verbatim>\<open>ValueError\<close>, a decimal literal of more digits than
  \<^verbatim>\<open>sys.int_info.default_max_str_digits\<close>.
\<close>

definition digits :: pystr where
  "digits = str ''0123456789''"

definition digit_val :: "pychar \<Rightarrow> int" where
  "digit_val c = (case map_of (zip digits [0, 1, 2, 3, 4, 5, 6, 7, 8, 9]) c of
                    Some v \<Rightarrow> v | None \<Rightarrow> 0)"

definition int_max_str_digits :: nat where
  "int_max_str_digits = 4300"

definition py_int :: "pystr \<Rightarrow> error + int" where
  "py_int s =
     (if s = [] \<or> (\<exists>c \<in> set s. c \<notin> set digits) \<or> int_max_str_digits < length s
      then Inl ValueError
      else Inr (foldl (\<lambda>a c. 10 * a + digit_val c) 0 s))"

text \<open>
  \<^verbatim>\<open>xs < ys\<close> on lists of integers: the first position where the lists differ decides;
  when there is none, the shorter list is the smaller.
\<close>

fun list_lt :: "int list \<Rightarrow> int list \<Rightarrow> bool" where
  "list_lt [] [] = False"
| "list_lt [] (y # ys) = True"
| "list_lt (x # xs) [] = False"
| "list_lt (x # xs) (y # ys) = (if x = y then list_lt xs ys else x < y)"

section \<open>Paths (\<^verbatim>\<open>pathlib.Path\<close> on a POSIX host)\<close>

text \<open>
  A path is its root (empty, one slash or two slashes) and its components. Parsing a
  string drops empty components and the component of one dot; exactly two leading
  slashes are kept as the root of two slashes.
\<close>

datatype path = Path (root: pystr) (parts: "pystr list")

definition splitroot :: "pystr \<Rightarrow> pystr \<times> pystr" where
  "splitroot part =
     (if part \<noteq> [] \<and> hd part = Ch (CHR ''/'') then
        (let stripped_part = dropWhile (\<lambda>c. c = Ch (CHR ''/'')) part
         in if length part - length stripped_part = 2 then (str ''//'', stripped_part)
            else (str ''/'', stripped_part))
      else ([], part))"

definition path_of :: "pystr \<Rightarrow> path" where
  "path_of s =
     (case splitroot s of (r, rel) \<Rightarrow>
        Path r (filter (\<lambda>x. x \<noteq> [] \<and> x \<noteq> str ''.'') (split_on (Ch (CHR ''/'')) rel)))"

text \<open>\<^verbatim>\<open>str(p)\<close>.\<close>

definition path_str :: "path \<Rightarrow> pystr" where
  "path_str p =
     (let s = root p @ join (str ''/'') (parts p) in if s = [] then str ''.'' else s)"

text \<open>\<^verbatim>\<open>p / s\<close> for a string \<open>s\<close>: an absolute right operand replaces the left one.\<close>

definition path_join :: "path \<Rightarrow> pystr \<Rightarrow> path" where
  "path_join p s =
     (let q = path_of s
      in if root q \<noteq> [] then q else Path (root p) (parts p @ parts q))"

text \<open>
  The paths that parsing yields: no component is empty, is one dot or holds a slash.
\<close>

definition wf_path :: "path \<Rightarrow> bool" where
  "wf_path p = (\<forall>c \<in> set (parts p). c \<noteq> [] \<and> c \<noteq> str ''.'' \<and> Ch (CHR ''/'') \<notin> set c)"

text \<open>\<^verbatim>\<open>p.parent\<close>, \<^verbatim>\<open>p.name\<close>, \<^verbatim>\<open>p.suffix\<close> and \<^verbatim>\<open>p.stem\<close>.\<close>

definition path_parent :: "path \<Rightarrow> path" where
  "path_parent p = Path (root p) (butlast (parts p))"

definition path_name :: "path \<Rightarrow> pystr" where
  "path_name p = (if parts p = [] then [] else last (parts p))"

text \<open>\<^verbatim>\<open>s.rfind(c)\<close>: the index of the last occurrence, or \<open>-1\<close>.\<close>

definition rfind :: "pychar \<Rightarrow> pystr \<Rightarrow> int" where
  "rfind c s =
     (if c \<in> set s then int (length s) - 1 - int (length (takeWhile (\<lambda>x. x \<noteq> c) (rev s)))
      else - 1)"

definition path_suffix :: "path \<Rightarrow> pystr" where
  "path_suffix p =
     (let name = path_name p; i = rfind (Ch (CHR ''.'')) name
      in if 0 < i \<and> i < int (length name) - 1 then drop (nat i) name else [])"

definition path_stem :: "path \<Rightarrow> pystr" where
  "path_stem p =
     (let name = path_name p; i = rfind (Ch (CHR ''.'')) name
      in if 0 < i \<and> i < int (length name) - 1 then take (nat i) name else name)"

section \<open>The root registry\<close>

text \<open>
  The registry is the file \<^verbatim>\<open>roots\<close> in the user's configuration directory. The model
  of the disk is what that file holds, or \<open>None\<close> while the file does not exist: a file
  holds the text that its bytes decode to, or bytes that the codec cannot decode.
  Failures of the host that do not depend on the text (no permission, a full disk) are
  outside the model.
\<close>

datatype content = Text pystr | Undecodable

type_synonym disk = "content option"

definition roots_file :: "path \<Rightarrow> path" where
  "roots_file user_dir = path_join user_dir (str ''roots'')"

text \<open>
  Reading in text mode translates the line ends \<open>CR LF\<close> and \<open>CR\<close> to \<open>LF\<close>
  (universal newlines).
\<close>

fun universal_newlines :: "pystr \<Rightarrow> pystr" where
  "universal_newlines [] = []"
| "universal_newlines [c] = [if c = CR then NL else c]"
| "universal_newlines (c # d # ds) =
     (if c = CR \<and> d = NL then NL # universal_newlines ds
      else if c = CR then NL # universal_newlines (d # ds)
      else c # universal_newlines (d # ds))"

definition read_text :: "disk \<Rightarrow> error + pystr" where
  "read_text d =
     (case d of
        None \<Rightarrow> Inl FileNotFoundError
      | Some Undecodable \<Rightarrow> Inl UnicodeDecodeError
      | Some (Text t) \<Rightarrow> Inr (universal_newlines t))"

text \<open>
  \<^verbatim>\<open>write_text\<close> opens the file for writing, which empties it, and then encodes the
  text in one piece: a text with a character that the codec cannot encode raises
  \<^verbatim>\<open>UnicodeEncodeError\<close> and leaves the file empty. On a POSIX host the text is stored
  as it is. The result is the disk after the call and the exception, if any.
\<close>

definition write_text :: "pystr \<Rightarrow> disk \<times> error option" where
  "write_text t =
     (if \<forall>c \<in> set t. encodable c then (Some (Text t), None)
      else (Some (Text []), Some UnicodeEncodeError))"

text \<open>
  The statements run when the module is loaded (package, lines 73 and 74):
  \<^verbatim>\<open>if not roots_file.is_file(): roots_file.touch()\<close>.
\<close>

definition module_init :: "disk \<Rightarrow> disk" where
  "module_init d = (case d of None \<Rightarrow> Some (Text []) | Some f \<Rightarrow> Some f)"

text \<open>\<^verbatim>\<open>get_roots\<close> (package, lines 96 and 97).\<close>

definition get_roots :: "disk \<Rightarrow> error + pystr list" where
  "get_roots d =
     (case read_text d of
        Inl e \<Rightarrow> Inl e
      | Inr t \<Rightarrow> Inr (filter (\<lambda>root. root \<noteq> []) (split_on NL t)))"

text \<open>
  \<^verbatim>\<open>add_root\<close> (package, lines 86 to 93). The argument is the value of \<^verbatim>\<open>str(path)\<close>;
  the result is the disk after the call and the exception that ended it, if any.
\<close>

definition add_root :: "disk \<Rightarrow> pystr \<Rightarrow> disk \<times> error option" where
  "add_root d path =
     (case get_roots d of
        Inl e \<Rightarrow> (d, Some e)
      | Inr roots \<Rightarrow>
          if path \<in> set roots then (d, None)
          else write_text (join [NL] (roots @ [path])))"

text \<open>A sequence of \<^verbatim>\<open>add_root\<close> calls, stopping at the first exception.\<close>

fun add_roots :: "disk \<Rightarrow> pystr list \<Rightarrow> disk \<times> error option" where
  "add_roots d [] = (d, None)"
| "add_roots d (p # ps) =
     (case add_root d p of
        (d', Some e) \<Rightarrow> (d', Some e)
      | (d', None) \<Rightarrow> add_roots d' ps)"

text \<open>The registry as it is read back after a sequence of \<^verbatim>\<open>add_root\<close> calls.\<close>

definition registry_after :: "disk \<Rightarrow> pystr list \<Rightarrow> error + pystr list" where
  "registry_after d ps =
     (case add_roots d ps of
        (d', Some e) \<Rightarrow> Inl e
      | (d', None) \<Rightarrow> get_roots d')"

text \<open>A path that fits on one line of the registry file.\<close>

abbreviation one_line :: "pystr \<Rightarrow> bool" where
  "one_line p \<equiv> p \<noteq> [] \<and> NL \<notin> set p \<and> CR \<notin> set p"

section \<open>The host\<close>

text \<open>
  What the pipeline and the daemon do to the outside world is recorded as a list of
  effects, in the order of the calls. A call of the logger is recorded with its level;
  the text of the message is not modelled.
\<close>

datatype level = DEBUG | INFO | ERROR

datatype effect =
    Log level
  | Check_output "pystr list"
  | Run "pystr list"
  | Copy pystr
  | Add_watch pystr
  | Remove_watch pystr
  | Popen "pystr list"
  | Terminate

text \<open>
  The answers of the host: the result of
  \<^verbatim>\<open>subprocess.check_output(["inkscape", "--version"])\<close>, the return code of
  \<^verbatim>\<open>subprocess.run(command)\<close>, the result of \<^verbatim>\<open>pyperclip.copy\<close>, whether
  \<^verbatim>\<open>add_watch\<close> succeeds on a path, and the result of starting \<^verbatim>\<open>fswatch\<close>. Each
  call that can raise answers with an exception or a value. The methods
  \<^verbatim>\<open>str.title\<close> and \<^verbatim>\<open>str.lower\<close> follow the character database of the
  interpreter and are answers of the host as well.
\<close>

record env =
  version_output :: "error + pystr"
  returncode :: "pystr list \<Rightarrow> error + int"
  clipboard :: "pystr \<Rightarrow> error option"
  can_watch :: "pystr \<Rightarrow> bool"
  spawn :: "pystr list \<Rightarrow> error option"
  str_title :: "pystr \<Rightarrow> pystr"
  str_lower :: "pystr \<Rightarrow> pystr"

section \<open>The snippet\<close>

text \<open>\<^verbatim>\<open>beautify\<close> and \<^verbatim>\<open>latex_template\<close> (package, lines 35 to 52).\<close>

definition beautify :: "env \<Rightarrow> pystr \<Rightarrow> pystr" where
  "beautify env name =
     str_title env
       (replace_char (Ch (CHR ''-'')) (Ch (CHR '' ''))
          (replace_char (Ch (CHR ''_'')) (Ch (CHR '' '')) name))"

definition latex_template :: "env \<Rightarrow> pystr \<Rightarrow> pystr \<Rightarrow> pystr" where
  "latex_template env name title0 =
     (let label = str_lower env
            (replace_char (Ch (CHR '' '')) (Ch (CHR ''_''))
               (replace_char (Ch (CHR ''-'')) (Ch (CHR ''_'')) title0));
          title1 = str_title env
            (replace_char (Ch (CHR ''_'')) (Ch (CHR '' ''))
               (replace_char (Ch (CHR ''-'')) (Ch (CHR '' '')) title0))
      in join [NL]
           [BS # str ''begin{figure}[ht]'',
            str ''    '' @ BS # str ''centering'',
            str ''    '' @ BS # str ''incfig{'' @ name @ str ''}'',
            str ''    '' @ BS # str ''caption{'' @ title1 @ str ''}'',
            str ''    '' @ BS # str ''label{fig:'' @ label @ str ''}'',
            BS # str ''end{figure}''])"

text \<open>\<^verbatim>\<open>latexTemplate\<close> (script, lines 77 to 92).\<close>

definition latexTemplate :: "env \<Rightarrow> pystr \<Rightarrow> pystr \<Rightarrow> pystr" where
  "latexTemplate env name caption =
     (let label = str_lower env
            (replace_char (Ch (CHR '' '')) (Ch (CHR ''_''))
               (replace_char (Ch (CHR ''-'')) (Ch (CHR ''_'')) caption));
          caption1 = str_title env
            (replace_char (Ch (CHR ''_'')) (Ch (CHR '' ''))
               (replace_char (Ch (CHR ''-'')) (Ch (CHR '' '')) caption))
      in join [NL]
           [BS # str ''begin{figure}[H]'',
            str ''    '' @ BS # str ''centering'',
            [],
            str ''    '' @ BS # str ''incfig{'' @ name @ str ''}'',
            [],
            str ''    '' @ BS # str ''caption{'' @ caption1 @ str ''}'',
            str ''    '' @ BS # str ''label{fig:'' @ label @ str ''}'',
            BS # str ''end{figure}''])"

section \<open>The command builder\<close>

text \<open>
  \<^verbatim>\<open>re.findall(r"[0-9.]+", s)[0]\<close>: the first maximal run of digits and dots;
  \<^verbatim>\<open>IndexError\<close> when the text has none.
\<close>

definition is_version_char :: "pychar \<Rightarrow> bool" where
  "is_version_char c = (c \<in> set (digits @ str ''.''))"

definition findall_first :: "pystr \<Rightarrow> error + pystr" where
  "findall_first s =
     (let m = takeWhile is_version_char (dropWhile (\<lambda>c. \<not> is_version_char c) s)
      in if m = [] then Inl IndexError else Inr m)"

text \<open>\<^verbatim>\<open>[int(part) for part in parts]\<close>: the first part that is refused raises.\<close>

fun int_parts :: "pystr list \<Rightarrow> error + int list" where
  "int_parts [] = Inr []"
| "int_parts (part # rest) =
     (case py_int part of
        Inl e \<Rightarrow> Inl e
      | Inr n \<Rightarrow> (case int_parts rest of Inl e \<Rightarrow> Inl e | Inr ns \<Rightarrow> Inr (n # ns)))"

text \<open>
  Package, lines 147 to 157: the version number as a list of integers, padded with
  zeros to three entries (\<^verbatim>\<open>[0] * k\<close> is empty for \<open>k \<le> 0\<close>).
\<close>

definition inkscape_version_number :: "pystr \<Rightarrow> error + int list" where
  "inkscape_version_number inkscape_version =
     (case findall_first inkscape_version of
        Inl e \<Rightarrow> Inl e
      | Inr v \<Rightarrow>
          (case int_parts (split_on (Ch (CHR ''.'')) v) of
             Inl e \<Rightarrow> Inl e
           | Inr ns \<Rightarrow> Inr (ns @ replicate (3 - length ns) 0)))"

text \<open>Package, line 139.\<close>

definition pdf_path :: "path \<Rightarrow> path" where
  "pdf_path filepath = path_join (path_parent filepath) (path_stem filepath @ str ''.pdf'')"

text \<open>
  Package, lines 159 to 181. The two paths in the list reach the converter as the
  strings \<^verbatim>\<open>str(pdf_path)\<close> and \<^verbatim>\<open>str(filepath)\<close>.
\<close>

definition legacy_command :: "path \<Rightarrow> path \<Rightarrow> pystr list" where
  "legacy_command filepath pdf =
     [str ''inkscape'', str ''--export-area-page'', str ''--export-dpi'', str ''300'',
      str ''--export-pdf'', path_str pdf, str ''--export-latex'', path_str filepath]"

definition modern_command :: "path \<Rightarrow> path \<Rightarrow> pystr list" where
  "modern_command filepath pdf =
     [str ''inkscape'', path_str filepath, str ''--export-area-page'', str ''--export-dpi'',
      str ''300'', str ''--export-type=pdf'', str ''--export-latex'', str ''--export-filename'',
      path_str pdf]"

definition export_command :: "int list \<Rightarrow> path \<Rightarrow> pystr list" where
  "export_command version_number filepath =
     (if list_lt version_number [1, 0, 0]
      then legacy_command filepath (pdf_path filepath)
      else modern_command filepath (pdf_path filepath))"

text \<open>
  The command builder: from the text of the version probe and the source path to the
  argument vector and the output path, or to the exception raised on the way.
\<close>

definition command_builder :: "pystr \<Rightarrow> path \<Rightarrow> error + pystr list \<times> path" where
  "command_builder inkscape_version filepath =
     (case inkscape_version_number inkscape_version of
        Inl e \<Rightarrow> Inl e
      | Inr vn \<Rightarrow> Inr (export_command vn filepath, pdf_path filepath))"

text \<open>The same lines of the script (lines 191 to 233), translated on their own.\<close>

definition inkscapeVersionNumber :: "pystr \<Rightarrow> error + int list" where
  "inkscapeVersionNumber inkscapeVersion =
     (case findall_first inkscapeVersion of
        Inl e \<Rightarrow> Inl e
      | Inr v \<Rightarrow>
          (case int_parts (split_on (Ch (CHR ''.'')) v) of
             Inl e \<Rightarrow> Inl e
           | Inr ns \<Rightarrow> Inr (ns @ replicate (3 - length ns) 0)))"

definition pdfPath :: "path \<Rightarrow> path" where
  "pdfPath filepath = path_join (path_parent filepath) (path_stem filepath @ str ''.pdf'')"

definition exportCommand :: "int list \<Rightarrow> path \<Rightarrow> pystr list" where
  "exportCommand versionNumber filepath =
     (if list_lt versionNumber [1, 0, 0] then
        [str ''inkscape'', str ''--export-area-page'', str ''--export-dpi'', str ''300'',
         str ''--export-pdf'', path_str (pdfPath filepath), str ''--export-latex'',
         path_str filepath]
      else
        [str ''inkscape'', path_str filepath, str ''--export-area-page'', str ''--export-dpi'',
         str ''300'', str ''--export-type=pdf'', str ''--export-latex'',
         str ''--export-filename'', path_str (pdfPath filepath)])"

definition commandBuilder :: "pystr \<Rightarrow> path \<Rightarrow> error + pystr list \<times> path" where
  "commandBuilder inkscapeVersion filepath =
     (case inkscapeVersionNumber inkscapeVersion of
        Inl e \<Rightarrow> Inl e
      | Inr vn \<Rightarrow> Inr (exportCommand vn filepath, pdfPath filepath))"

section \<open>The recompilation pipeline\<close>

text \<open>A converter invocation is a call of the version probe or of the export command.\<close>

fun is_converter :: "effect \<Rightarrow> bool" where
  "is_converter (Check_output _) = True"
| "is_converter (Run _) = True"
| "is_converter _ = False"

fun is_copy :: "effect \<Rightarrow> bool" where
  "is_copy (Copy _) = True"
| "is_copy _ = False"

text \<open>
  \<^verbatim>\<open>maybe_recompile_figure\<close> (package, lines 129 to 196). The template is a parameter:
  the user's \<^verbatim>\<open>config.py\<close> may replace \<^verbatim>\<open>latex_template\<close> (lines 81 to 83); a
  template that raises is outside the model. The result is the list of effects and the
  exception that ended the call, if any.
\<close>

definition maybe_recompile_figure ::
  "env \<Rightarrow> (pystr \<Rightarrow> pystr \<Rightarrow> pystr) \<Rightarrow> path \<Rightarrow> effect list \<times> error option" where
  "maybe_recompile_figure env template filepath =
     (if path_suffix filepath \<noteq> str ''.svg'' then ([Log DEBUG], None)
      else
        (let name = path_stem filepath;
            probe = [Log INFO, Check_output [str ''inkscape'', str ''--version'']]
        in (case version_output env of
              Inl e \<Rightarrow> (probe, Some e)
            | Inr inkscape_version \<Rightarrow>
                (case inkscape_version_number inkscape_version of
                   Inl e \<Rightarrow> (probe @ [Log DEBUG], Some e)
                 | Inr vn \<Rightarrow>
                     (let command = export_command vn filepath;
                          built = probe @ [Log DEBUG, Log DEBUG, Log DEBUG, Run command]
                      in (case returncode env command of
                            Inl e \<Rightarrow> (built, Some e)
                          | Inr rc \<Rightarrow>
                              (let ran = built @ [Log (if rc \<noteq> 0 then ERROR else DEBUG)];
                                   snippet = template name (beautify env name)
                               in (case clipboard env snippet of
                                     Some e \<Rightarrow> (ran @ [Copy snippet], Some e)
                                   | None \<Rightarrow>
                                       (ran @ [Copy snippet, Log DEBUG, Log DEBUG], None)))))))))"

text \<open>\<^verbatim>\<open>maybeRecompileFigure\<close> (script, lines 181 to 248); the template is fixed.\<close>

definition maybeRecompileFigure :: "env \<Rightarrow> path \<Rightarrow> effect list \<times> error option" where
  "maybeRecompileFigure env filepath =
     (if path_suffix filepath \<noteq> str ''.svg'' then ([Log DEBUG], None)
      else
        (let name = path_stem filepath;
            probe = [Log INFO, Check_output [str ''inkscape'', str ''--version'']]
        in (case version_output env of
              Inl e \<Rightarrow> (probe, Some e)
            | Inr inkscapeVersion \<Rightarrow>
                (case inkscapeVersionNumber inkscapeVersion of
                   Inl e \<Rightarrow> (probe @ [Log DEBUG], Some e)
                 | Inr vn \<Rightarrow>
                     (let command = exportCommand vn filepath;
                          built = probe @ [Log DEBUG, Log DEBUG, Log DEBUG, Run command]
                      in (case returncode env command of
                            Inl e \<Rightarrow> (built, Some e)
                          | Inr rc \<Rightarrow>
                              (let ran = built @ [Log (if rc \<noteq> 0 then ERROR else DEBUG)];
                                   snippet = latexTemplate env name (beautify env name)
                               in (case clipboard env snippet of
                                     Some e \<Rightarrow> (ran @ [Copy snippet], Some e)
                                   | None \<Rightarrow>
                                       (ran @ [Copy snippet, Log DEBUG, Log DEBUG], None)))))))))"

section \<open>The watch daemon\<close>

text \<open>
  The inotify object keeps a table of the watched paths; \<^verbatim>\<open>add_watch\<close> on a path
  already in the table changes nothing. The daemon's state between two reloads is the
  list of roots it read and that table.
\<close>

record watcher =
  roots :: "pystr list"
  watches :: "pystr list"

text \<open>
  Package, lines 210 to 214: one \<^verbatim>\<open>add_watch\<close> per root, each inside its own
  \<^verbatim>\<open>try\<close>; a failure is logged at debug level and the loop goes on.
\<close>

fun add_watches :: "env \<Rightarrow> pystr list \<Rightarrow> pystr list \<Rightarrow> pystr list \<times> effect list" where
  "add_watches env ws [] = (ws, [])"
| "add_watches env ws (r # rs) =
     (if can_watch env r then
        (case add_watches env (if r \<in> set ws then ws else ws @ [r]) rs of
           (ws', tr) \<Rightarrow> (ws', Add_watch r # tr))
      else
        (case add_watches env ws rs of
           (ws', tr) \<Rightarrow> (ws', Add_watch r # Log DEBUG # tr)))"

text \<open>
  Package, lines 204 to 214: the start of each round of the outer loop. The watch on
  the registry file itself is outside any \<^verbatim>\<open>try\<close>.
\<close>

definition start_inotify :: "env \<Rightarrow> path \<Rightarrow> disk \<Rightarrow> error + watcher \<times> effect list" where
  "start_inotify env user_dir d =
     (case get_roots d of
        Inl e \<Rightarrow> Inl e
      | Inr rs \<Rightarrow>
          let f = path_str (roots_file user_dir)
          in if \<not> can_watch env f then Inl InotifyError
             else (case add_watches env [f] rs of
                     (ws, tr) \<Rightarrow>
                       Inr (\<lparr>roots = rs, watches = ws\<rparr>, Add_watch f # Log INFO # tr)))"

text \<open>
  Package, lines 221 to 226: every root is unregistered inside its own \<^verbatim>\<open>try\<close>. Both
  branches, success and failure, log at debug level and go on, so the effects do not
  depend on whether \<^verbatim>\<open>remove_watch\<close> succeeds.
\<close>

fun remove_watches :: "pystr list \<Rightarrow> effect list" where
  "remove_watches [] = []"
| "remove_watches (r # rs) = Remove_watch r # Log DEBUG # remove_watches rs"

text \<open>
  What one event does to the daemon: it leaves the inner loop to reload, it stays in
  the inner loop, or an exception leaves the daemon.
\<close>

datatype outcome = Reload | Watching | Raised error

text \<open>
  Package, lines 216 to 231: the body of the inner loop for one event
  \<open>(path, filename)\<close>.
\<close>

definition inotify_event ::
  "env \<Rightarrow> (pystr \<Rightarrow> pystr \<Rightarrow> pystr) \<Rightarrow> path \<Rightarrow> watcher \<Rightarrow> pystr \<times> pystr
     \<Rightarrow> outcome \<times> effect list" where
  "inotify_event env template user_dir w event =
     (case event of (path, filename) \<Rightarrow>
        if path = path_str (roots_file user_dir)
        then (Reload, Log INFO # remove_watches (roots w))
        else (case maybe_recompile_figure env template (path_join (path_of path) filename) of
                (tr, None) \<Rightarrow> (Watching, tr)
              | (tr, Some e) \<Rightarrow> (Raised e, tr)))"

text \<open>
  Package, lines 236 to 244: the start of each round of the polling daemon, which hands
  all roots and the configuration directory to \<^verbatim>\<open>fswatch\<close>.
\<close>

definition start_fswatch :: "env \<Rightarrow> path \<Rightarrow> disk \<Rightarrow> error + pystr list \<times> effect list" where
  "start_fswatch env user_dir d =
     (case get_roots d of
        Inl e \<Rightarrow> Inl e
      | Inr rs \<Rightarrow>
          let args = str ''fswatch'' # rs @ [path_str user_dir]
          in (case spawn env args of
                Some e \<Rightarrow> Inl e
              | None \<Rightarrow> Inr (rs, [Log INFO, Popen args])))"

text \<open>
  Package, lines 247 to 254: the body of the inner loop for one line read from
  \<^verbatim>\<open>fswatch\<close>.
\<close>

definition fswatch_line ::
  "env \<Rightarrow> (pystr \<Rightarrow> pystr \<Rightarrow> pystr) \<Rightarrow> path \<Rightarrow> pystr \<Rightarrow> outcome \<times> effect list" where
  "fswatch_line env template user_dir line =
     (let filepath = strip line
      in if filepath = path_str (roots_file user_dir)
         then (Reload, [Log INFO, Terminate, Log DEBUG])
         else (case maybe_recompile_figure env template (path_of filepath) of
                 (tr, None) \<Rightarrow> (Watching, tr)
               | (tr, Some e) \<Rightarrow> (Raised e, tr)))"

text \<open>
  One reload of the inotify daemon: the event on the registry file ends the inner
  loop, and the outer loop starts its next round on the disk as it is then.
\<close>

definition reload_inotify ::
  "env \<Rightarrow> (pystr \<Rightarrow> pystr \<Rightarrow> pystr) \<Rightarrow> path \<Rightarrow> watcher \<Rightarrow> disk
     \<Rightarrow> error + watcher \<times> effect list" where
  "reload_inotify env template user_dir w d =
     (case inotify_event env template user_dir w (path_str (roots_file user_dir), []) of
        (Reload, tr) \<Rightarrow>
          (case start_inotify env user_dir d of
             Inl e \<Rightarrow> Inl e
           | Inr (w', tr') \<Rightarrow> Inr (w', tr @ tr'))
      | (Watching, tr) \<Rightarrow> Inr (w, tr)
      | (Raised e, tr) \<Rightarrow> Inl e)"

section \<open>Sample values\<close>

text \<open>
  The two string methods on a text of ASCII characters: only the letters \<open>a\<close> to \<open>z\<close>
  and \<open>A\<close> to \<open>Z\<close> are cased; in a title a character that follows a cased character
  is lowercased, any other character is uppercased.
\<close>

definition ascii_lowercase :: pystr where
  "ascii_lowercase = str ''abcdefghijklmnopqrstuvwxyz''"

definition ascii_uppercase :: pystr where
  "ascii_uppercase = str ''ABCDEFGHIJKLMNOPQRSTUVWXYZ''"

definition to_lower :: "pychar \<Rightarrow> pychar" where
  "to_lower c = (case map_of (zip ascii_uppercase ascii_lowercase) c of Some l \<Rightarrow> l | None \<Rightarrow> c)"

definition to_upper :: "pychar \<Rightarrow> pychar" where
  "to_upper c = (case map_of (zip ascii_lowercase ascii_uppercase) c of Some u \<Rightarrow> u | None \<Rightarrow> c)"

definition is_cased :: "pychar \<Rightarrow> bool" where
  "is_cased c = (c \<in> set (ascii_lowercase @ ascii_uppercase))"

fun title_from :: "bool \<Rightarrow> pystr \<Rightarrow> pystr" where
  "title_from prev [] = []"
| "title_from prev (c # cs) =
     (if prev then to_lower c else to_upper c) # title_from (is_cased c) cs"

text \<open>
  A host on which every call succeeds: the converter reports version 1.2.0 and exits
  with the given code.
\<close>

definition sample_env :: "int \<Rightarrow> env" where
  "sample_env rc =
     \<lparr>version_output = Inr (str ''Inkscape 1.2.0 (dc2aeda, 2022-05-15)''),
      returncode = (\<lambda>_. Inr rc),
      clipboard = (\<lambda>_. None),
      can_watch = (\<lambda>_. True),
      spawn = (\<lambda>_. None),
      str_title = title_from False,
      str_lower = map to_lower\<rparr>"

text \<open>A directory whose name holds a line feed, which a POSIX file system allows.\<close>

definition two_line_dir :: pystr where
  "two_line_dir = str ''/tmp/a'' @ [NL] @ str ''b''"

text \<open>
  A directory whose name holds the byte \<open>0xFF\<close>, which the codec cannot decode: the
  interpreter reports the byte as the surrogate U+DCFF.
\<close>

definition surrogate_dir :: pystr where
  "surrogate_dir = str ''/tmp/fig'' @ [U 0xDCFF]"

definition sample_user_dir :: path where
  "sample_user_dir = path_of (str ''/home/u/.config/inkscape-figures'')"

definition sample_figure :: path where
  "sample_figure = path_of (str ''/tmp/a/figure.svg'')"

section \<open>Strings, lists and line ends\<close>

lemma split_on_not_Nil: "split_on c s \<noteq> []"
  by (induction s) (auto split: list.splits)

lemma split_on_parts_subset: "x \<in> set (split_on c s) \<Longrightarrow> set x \<subseteq> set s - {c}"
proof (induction s arbitrary: x)
  case Nil
  then show ?case by simp
next
  case (Cons a s)
  obtain h t where ht: "split_on c s = h # t"
    using split_on_not_Nil [of c s] by (cases "split_on c s") auto
  show ?case
  proof (cases "a = c")
    case True
    with Cons show ?thesis by auto
  next
    case False
    with Cons.prems ht have "x = a # h \<or> x \<in> set t" by simp
    then show ?thesis
    proof
      assume "x = a # h"
      moreover have "set h \<subseteq> set s - {c}" using Cons.IH [of h] ht by simp
      ultimately show ?thesis using False by auto
    next
      assume "x \<in> set t"
      then have "set x \<subseteq> set s - {c}" using Cons.IH [of x] ht by simp
      then show ?thesis by auto
    qed
  qed
qed

lemma split_on_no_sep: "c \<notin> set s \<Longrightarrow> split_on c s = [s]"
  by (induction s) auto

lemma split_on_append_sep:
  "c \<notin> set x \<Longrightarrow> split_on c (x @ c # s) = x # split_on c s"
  by (induction x) auto

lemma split_on_join:
  "xs \<noteq> [] \<Longrightarrow> \<forall>x \<in> set xs. c \<notin> set x \<Longrightarrow> split_on c (join [c] xs) = xs"
proof (induction xs)
  case Nil
  then show ?case by simp
next
  case (Cons x xs)
  show ?case
  proof (cases xs)
    case Nil
    with Cons.prems show ?thesis by (simp add: split_on_no_sep)
  next
    case (Cons y ys)
    with Cons.IH Cons.prems show ?thesis by (simp add: split_on_append_sep)
  qed
qed

lemma universal_newlines_id: "CR \<notin> set s \<Longrightarrow> universal_newlines s = s"
  by (induction s rule: universal_newlines.induct) auto

lemma universal_newlines_no_CR: "CR \<notin> set (universal_newlines s)"
  by (induction s rule: universal_newlines.induct) (auto simp: NL_def CR_def)

lemma list_lt_lexord: "list_lt xs ys \<longleftrightarrow> (xs, ys) \<in> lexord {(a, b). a < b}"
  by (induction xs ys rule: list_lt.induct) auto

section \<open>The registry file read back\<close>

lemma set_join: "set (join sep xs) \<subseteq> set sep \<union> \<Union> (set ` set xs)"
  by (induction sep xs rule: join.induct) auto

lemma get_roots_Text:
  "get_roots (Some (Text t)) = Inr (filter (\<lambda>r. r \<noteq> []) (split_on NL (universal_newlines t)))"
  by (simp add: get_roots_def read_text_def)

lemma get_roots_entries:
  assumes "get_roots d = Inr rs" and "r \<in> set rs"
  shows "one_line r"
proof -
  from assms(1) obtain t where d: "d = Some (Text t)"
    by (auto simp: get_roots_def read_text_def split: option.splits content.splits)
  with assms have r: "r \<noteq> []" "r \<in> set (split_on NL (universal_newlines t))"
    by (auto simp: get_roots_Text)
  from r(2) have "set r \<subseteq> set (universal_newlines t) - {NL}"
    by (rule split_on_parts_subset)
  with universal_newlines_no_CR [of t] r(1) show ?thesis by auto
qed

lemma get_roots_join:
  assumes "\<forall>r \<in> set rs. one_line r"
  shows "get_roots (Some (Text (join [NL] rs))) = Inr rs"
proof -
  have "CR \<notin> set (join [NL] rs)"
    using set_join [of "[NL]" rs] assms by (auto simp: NL_def CR_def)
  then have un: "universal_newlines (join [NL] rs) = join [NL] rs"
    by (rule universal_newlines_id)
  have flt: "filter (\<lambda>r. r \<noteq> []) rs = rs"
    using assms by (simp add: filter_id_conv)
  show ?thesis
  proof (cases "rs = []")
    case True
    then show ?thesis by (simp add: get_roots_Text)
  next
    case False
    then have "split_on NL (join [NL] rs) = rs"
      using assms by (intro split_on_join) auto
    with un flt show ?thesis by (simp add: get_roots_Text)
  qed
qed

lemma write_text_join:
  assumes "\<forall>r \<in> set rs. \<forall>c \<in> set r. encodable c"
  shows "write_text (join [NL] rs) = (Some (Text (join [NL] rs)), None)"
proof -
  have "\<forall>c \<in> set (join [NL] rs). encodable c"
    using set_join [of "[NL]" rs] assms by (auto simp: NL_def encodable_def)
  then show ?thesis by (simp add: write_text_def)
qed

lemma add_root_present:
  "get_roots d = Inr rs \<Longrightarrow> p \<in> set rs \<Longrightarrow> add_root d p = (d, None)"
  by (simp add: add_root_def)

lemma add_root_completed:
  assumes "get_roots d = Inr rs" and "one_line p" and "add_root d p = (d1, None)"
  shows "get_roots d1 = Inr (if p \<in> set rs then rs else rs @ [p])"
proof (cases "p \<in> set rs")
  case True
  with assms show ?thesis by (simp add: add_root_def)
next
  case False
  have "\<forall>r \<in> set (rs @ [p]). one_line r"
    using assms(2) get_roots_entries [OF assms(1)] by auto
  then have g: "get_roots (Some (Text (join [NL] (rs @ [p])))) = Inr (rs @ [p])"
    by (rule get_roots_join)
  from False assms(1,3) have "d1 = Some (Text (join [NL] (rs @ [p])))"
    by (auto simp: add_root_def write_text_def split: if_splits)
  with g False show ?thesis by simp
qed

lemma add_root_registry:
  assumes "get_roots d = Inr rs" and "one_line p"
    and "\<forall>r \<in> set (rs @ [p]). \<forall>c \<in> set r. encodable c"
  shows "\<exists>d1. add_root d p = (d1, None) \<and> (p \<in> set rs \<longrightarrow> d1 = d)
           \<and> get_roots d1 = Inr (if p \<in> set rs then rs else rs @ [p])"
proof (cases "p \<in> set rs")
  case True
  with assms show ?thesis by (simp add: add_root_def)
next
  case False
  let ?d1 = "Some (Text (join [NL] (rs @ [p])))"
  from assms(3) have "write_text (join [NL] (rs @ [p])) = (?d1, None)"
    by (rule write_text_join)
  with False assms(1) have a: "add_root d p = (?d1, None)"
    by (simp add: add_root_def)
  from add_root_completed [OF assms(1,2) a] False a show ?thesis by simp
qed

lemma add_roots_registry:
  assumes "get_roots d = Inr rs" and "distinct rs" and "\<forall>p \<in> set ps. one_line p"
    and "\<forall>r \<in> set (rs @ ps). \<forall>c \<in> set r. encodable c"
  shows "\<exists>d' rs'. add_roots d ps = (d', None) \<and> get_roots d' = Inr rs' \<and> distinct rs'
            \<and> set rs' = set rs \<union> set ps"
  using assms
proof (induction ps arbitrary: d rs)
  case Nil
  then show ?case by simp
next
  case (Cons p ps)
  from Cons.prems have p: "one_line p" by simp
  let ?rs1 = "if p \<in> set rs then rs else rs @ [p]"
  from Cons.prems(4) have enc: "\<forall>r \<in> set (rs @ [p]). \<forall>c \<in> set r. encodable c" by auto
  from add_root_registry [OF Cons.prems(1) p enc] obtain d1
    where d1: "add_root d p = (d1, None)" "get_roots d1 = Inr ?rs1" by blast
  have dist: "distinct ?rs1"
    using Cons.prems(2) by simp
  from Cons.prems(3) have rest: "\<forall>q \<in> set ps. one_line q" by simp
  from Cons.prems(4) have enc1: "\<forall>r \<in> set (?rs1 @ ps). \<forall>c \<in> set r. encodable c" by auto
  from Cons.IH [OF d1(2) dist rest enc1] obtain d' rs'
    where "add_roots d1 ps = (d', None)" "get_roots d' = Inr rs'" "distinct rs'"
      "set rs' = set ?rs1 \<union> set ps" by blast
  with d1(1) show ?case by (auto split: if_splits)
qed

lemma count_list_distinct: "distinct xs \<Longrightarrow> count_list xs x = (if x \<in> set xs then 1 else 0)"
  by (induction xs) auto

section \<open>Version numbers\<close>

lemma findall_first_chars:
  "findall_first v = Inr run \<Longrightarrow> run \<noteq> [] \<and> (\<forall>c \<in> set run. is_version_char c)"
  by (auto simp: findall_first_def Let_def split: if_splits dest: set_takeWhileD)

lemma version_part_digits:
  assumes "findall_first v = Inr run" and "part \<in> set (split_on (Ch (CHR ''.'')) run)"
  shows "set part \<subseteq> set digits"
proof -
  from assms(2) have "set part \<subseteq> set run - {Ch (CHR ''.'')}"
    by (rule split_on_parts_subset)
  moreover from assms(1) have "\<forall>c \<in> set run. is_version_char c"
    by (simp add: findall_first_chars)
  ultimately show ?thesis
    by (auto simp: is_version_char_def)
qed

lemma int_parts_digits:
  "\<forall>part \<in> set ps. part \<noteq> [] \<and> set part \<subseteq> set digits \<and> length part \<le> int_max_str_digits
     \<Longrightarrow> \<exists>ns. int_parts ps = Inr ns \<and> length ns = length ps"
proof (induction ps)
  case Nil
  then show ?case by simp
next
  case (Cons part ps)
  then obtain ns where ns: "int_parts ps = Inr ns" "length ns = length ps" by auto
  from Cons.prems have "\<exists>n. py_int part = Inr n"
    by (auto simp: py_int_def)
  with ns show ?case by auto
qed

lemma export_command_cases:
  "export_command vn p =
     (if (vn, [1, 0, 0]) \<in> lexord {(a, b). a < b}
      then legacy_command p (pdf_path p) else modern_command p (pdf_path p))"
  by (simp only: export_command_def list_lt_lexord)

section \<open>Watch registration\<close>

lemma add_watches_set:
  "set (fst (add_watches env ws rs)) = set ws \<union> {r \<in> set rs. can_watch env r}"
  by (induction rs arbitrary: ws) (auto simp: case_prod_beta)

lemma add_watches_log:
  "length (filter (\<lambda>e. e = Log DEBUG) (snd (add_watches env ws rs)))
     = length (filter (\<lambda>r. \<not> can_watch env r) rs)"
  by (induction rs arbitrary: ws) (simp_all add: case_prod_beta)

lemma add_watches_attempts:
  "filter (\<lambda>e. e \<noteq> Log DEBUG) (snd (add_watches env ws rs)) = map Add_watch rs"
  by (induction rs arbitrary: ws) (simp_all add: case_prod_beta)

lemma start_inotify_result:
  assumes "get_roots d = Inr rs" and "can_watch env (path_str (roots_file user_dir))"
  shows "start_inotify env user_dir d
           = Inr (\<lparr>roots = rs, watches = fst (add_watches env [path_str (roots_file user_dir)] rs)\<rparr>,
                  Add_watch (path_str (roots_file user_dir)) # Log INFO
                    # snd (add_watches env [path_str (roots_file user_dir)] rs))"
  using assms by (simp add: start_inotify_def Let_def case_prod_beta)

lemma reload_inotify_result:
  "reload_inotify env template user_dir w0 d =
     (case start_inotify env user_dir d of
        Inl e \<Rightarrow> Inl e
      | Inr (w, tr) \<Rightarrow> Inr (w, Log INFO # remove_watches (roots w0) @ tr))"
  by (simp add: reload_inotify_def inotify_event_def split: sum.splits)

lemma remove_watches_no_converter: "filter is_converter (remove_watches rs) = []"
  by (induction rs) simp_all

lemma remove_watches_no_copy: "filter is_copy (remove_watches rs) = []"
  by (induction rs) simp_all

section \<open>Paths\<close>

lemma path_of_name:
  assumes "s \<noteq> []" and "Ch (CHR ''/'') \<notin> set s" and "s \<noteq> str ''.''"
  shows "path_of s = Path [] [s]"
proof -
  from assms(1,2) have "hd s \<noteq> Ch (CHR ''/'')"
    by (cases s) auto
  then have "splitroot s = ([], s)" by (simp add: splitroot_def)
  with assms show ?thesis by (simp add: path_of_def split_on_no_sep)
qed

lemma wf_path_path_of: "wf_path (path_of s)"
proof -
  obtain r rel where sr: "splitroot s = (r, rel)" by (cases "splitroot s")
  have "Ch (CHR ''/'') \<notin> set c" if "c \<in> set (split_on (Ch (CHR ''/'')) rel)" for c
    using split_on_parts_subset [OF that] by auto
  with sr show ?thesis by (auto simp: wf_path_def path_of_def)
qed

lemma wf_path_path_join: "wf_path p \<Longrightarrow> wf_path (path_join p s)"
  using wf_path_path_of [of s] by (auto simp: path_join_def Let_def wf_path_def)

lemma rfind_ext:
  assumes "c \<notin> set e"
  shows "rfind c (s @ c # e) = int (length s)"
proof -
  have "takeWhile (\<lambda>x. x \<noteq> c) (rev e @ c # rev s) = takeWhile (\<lambda>x. x \<noteq> c) (rev e)"
    by (simp add: takeWhile_tail)
  also have "\<dots> = rev e"
    using assms by auto
  finally have t: "takeWhile (\<lambda>x. x \<noteq> c) (rev (s @ c # e)) = rev e"
    by simp
  have m: "c \<in> set (s @ c # e)" by simp
  show ?thesis
    by (simp only: rfind_def t m if_True) simp
qed

lemma path_suffix_name:
  assumes "path_suffix p = c # e" 
  shows "path_name p = path_stem p @ c # e \<and> path_stem p \<noteq> []"
proof -
  let ?name = "path_name p"
  let ?i = "rfind (Ch (CHR ''.'')) ?name"
  from assms have i: "0 < ?i" "?i < int (length ?name) - 1" and d: "drop (nat ?i) ?name = c # e"
    by (auto simp: path_suffix_def Let_def split: if_splits)
  then have st: "path_stem p = take (nat ?i) ?name"
    by (simp add: path_stem_def Let_def)
  have "?name = take (nat ?i) ?name @ drop (nat ?i) ?name" by simp
  with d st have "?name = path_stem p @ c # e" by simp
  moreover from i st have "path_stem p \<noteq> []" by auto
  ultimately show ?thesis by simp
qed

lemma pdf_path_parts:
  assumes "wf_path p" and "path_suffix p = str ''.svg''"
  shows "pdf_path p = Path (root p) (butlast (parts p) @ [path_stem p @ str ''.pdf''])"
proof -
  from assms(2) have n: "path_name p = path_stem p @ str ''.svg''" and ne: "path_stem p \<noteq> []"
    using path_suffix_name [of p "Ch (CHR ''.'')" "str ''svg''"] by simp_all
  from n ne have pp: "parts p \<noteq> []" by (auto simp: path_name_def split: if_splits)
  with n have "last (parts p) = path_stem p @ str ''.svg''" by (simp add: path_name_def)
  moreover from pp have "last (parts p) \<in> set (parts p)" by simp
  ultimately have "Ch (CHR ''/'') \<notin> set (path_stem p @ str ''.svg'')"
    using assms(1) by (auto simp: wf_path_def)
  then have slash: "Ch (CHR ''/'') \<notin> set (path_stem p @ str ''.pdf'')" by simp
  have "path_stem p @ str ''.pdf'' \<noteq> str ''.''" by simp
  with slash have "path_of (path_stem p @ str ''.pdf'') = Path [] [path_stem p @ str ''.pdf'']"
    by (intro path_of_name) simp_all
  then show ?thesis by (simp add: pdf_path_def path_join_def path_parent_def)
qed

section \<open>The pipeline and the two entry points\<close>

lemma pipeline_no_suffix:
  "path_suffix p \<noteq> str ''.svg'' \<Longrightarrow> maybe_recompile_figure env template p = ([Log DEBUG], None)"
  by (simp add: maybe_recompile_figure_def)

lemma script_versions:
  "inkscapeVersionNumber v = inkscape_version_number v"
  "pdfPath p = pdf_path p"
  "exportCommand vn p = export_command vn p"
  by (simp_all add: inkscapeVersionNumber_def inkscape_version_number_def pdfPath_def
      pdf_path_def exportCommand_def export_command_def legacy_command_def modern_command_def)

lemma script_pipeline:
  "maybeRecompileFigure env p = maybe_recompile_figure env (latexTemplate env) p"
  by (simp add: maybeRecompileFigure_def maybe_recompile_figure_def script_versions Let_def
      split: sum.splits option.splits)

lemma pipeline_converter_calls:
  "filter is_converter (fst (maybe_recompile_figure env template p))
     = filter is_converter (fst (maybe_recompile_figure env template' p))"
  by (simp add: maybe_recompile_figure_def Let_def split: sum.splits option.splits)

lemma roots_name_no_suffix: "path_name p = str ''roots'' \<Longrightarrow> path_suffix p = []"
  by (simp add: path_suffix_def rfind_def)

lemma roots_name_discarded:
  "path_name p = str ''roots''
     \<Longrightarrow> maybe_recompile_figure env template p = ([Log DEBUG], None)"
  by (rule pipeline_no_suffix) (simp add: roots_name_no_suffix)

lemma path_join_roots_name: "path_name (path_join p (str ''roots'')) = str ''roots''"
proof -
  have "path_of (str ''roots'') = Path [] [str ''roots'']"
    by (simp add: path_of_def splitroot_def)
  then show ?thesis
    by (simp add: path_join_def path_name_def)
qed

section \<open>The sample values\<close>

lemma version_examples:
  "findall_first (str ''1.0.0'') = Inr (str ''1.0.0'')"
  "findall_first (str ''1.0'') = Inr (str ''1.0'')"
  "findall_first (str ''1.0.0rc1'') = Inr (str ''1.0.0'')"
  "findall_first (str ''0.92.4'') = Inr (str ''0.92.4'')"
  "findall_first (str ''0.0.0'') = Inr (str ''0.0.0'')"
  "int_parts (split_on (Ch (CHR ''.'')) (str ''1.0.0'')) = Inr [1, 0, 0]"
  "int_parts (split_on (Ch (CHR ''.'')) (str ''1.0'')) = Inr [1, 0]"
  "int_parts (split_on (Ch (CHR ''.'')) (str ''0.92.4'')) = Inr [0, 92, 4]"
  "int_parts (split_on (Ch (CHR ''.'')) (str ''0.0.0'')) = Inr [0, 0, 0]"
  by (simp_all add: findall_first_def is_version_char_def digits_def py_int_def digit_val_def
      int_max_str_digits_def)

lemma sample_version:
  "inkscape_version_number (str ''Inkscape 1.2.0 (dc2aeda, 2022-05-15)'') = Inr [1, 2, 0]"
  by (simp add: inkscape_version_number_def findall_first_def is_version_char_def digits_def
      py_int_def digit_val_def int_max_str_digits_def)

lemma version_zero: "inkscape_version_number (str ''0.0.0'') = Inr [0, 0, 0]"
  by (simp add: inkscape_version_number_def findall_first_def is_version_char_def digits_def
      py_int_def digit_val_def int_max_str_digits_def)

lemma sample_roots_file:
  "path_str (roots_file sample_user_dir) = str ''/home/u/.config/inkscape-figures/roots''"
  by (simp add: roots_file_def sample_user_dir_def path_join_def path_of_def splitroot_def
      path_str_def)

lemma sample_figure_parts:
  "sample_figure = Path (str ''/'') [str ''tmp'', str ''a'', str ''figure.svg'']"
  by (simp add: sample_figure_def path_of_def splitroot_def)

lemma sample_figure_suffix: "path_suffix sample_figure = str ''.svg''"
  by (simp add: sample_figure_parts path_suffix_def path_name_def rfind_def)

lemma sample_figure_stem: "path_stem sample_figure = str ''figure''"
  by (simp add: sample_figure_parts path_stem_def path_name_def rfind_def)

lemma sample_figure_wf: "wf_path sample_figure"
  unfolding sample_figure_def by (rule wf_path_path_of)

lemma sample_figure_str: "path_str sample_figure = str ''/tmp/a/figure.svg''"
  by (simp add: sample_figure_parts path_str_def)

lemma sample_pdf_path:
  "pdf_path sample_figure = Path (str ''/'') [str ''tmp'', str ''a'', str ''figure.pdf'']"
  by (simp add: pdf_path_parts [OF sample_figure_wf sample_figure_suffix] sample_figure_stem)
     (simp add: sample_figure_parts)

lemma sample_pdf_str: "path_str (pdf_path sample_figure) = str ''/tmp/a/figure.pdf''"
  by (simp add: sample_pdf_path path_str_def)

lemma sample_beautify: "beautify (sample_env rc) (str ''figure'') = str ''Figure''"
  by (simp add: beautify_def sample_env_def replace_char_def to_upper_def to_lower_def
      is_cased_def ascii_lowercase_def ascii_uppercase_def)

lemma long_version_part:
  "command_builder (replicate 4301 (Ch (CHR ''1''))) p = Inl ValueError"
proof -
  let ?v = "replicate 4301 (Ch (CHR ''1''))"
  have v: "is_version_char (Ch (CHR ''1''))"
    by (simp add: is_version_char_def digits_def)
  then have "findall_first ?v = Inr ?v"
    by (simp add: findall_first_def)
  moreover have "split_on (Ch (CHR ''.'')) ?v = [?v]"
    by (rule split_on_no_sep) simp
  moreover have "py_int ?v = Inl ValueError"
    by (simp add: py_int_def int_max_str_digits_def)
  ultimately show ?thesis
    by (simp add: command_builder_def inkscape_version_number_def)
qed

section \<open>Claims about the root registry\<close>

text \<open>
  C7 (as amended). Let the registry be readable with the roots \<open>rs\<close>. Adding a path
  that is already among them leaves the disk as it was. If moreover \<open>rs\<close> has no
  duplicate, the paths added fit on one line of the registry file (not empty, no line
  feed, no carriage return), and they and the roots hold no character that the codec
  cannot encode (no lone surrogate), then \<^verbatim>\<open>add_root\<close> returns without an exception;
  a second \<^verbatim>\<open>add_root\<close> of the same path changes nothing; afterwards the registry is
  \<open>rs\<close> followed by the path if it was new, and holds the path exactly once; and after
  any sequence of such calls the registry has no duplicate and holds the old roots and
  the paths added. A directory whose name holds a line feed is stored as two lines and
  is added again by every call; a path with a lone surrogate raises
  \<^verbatim>\<open>UnicodeEncodeError\<close> and leaves the registry file empty.
\<close>

theorem add_root_idempotent_unique:
  assumes "get_roots d = Inr rs"
  shows "(p \<in> set rs \<longrightarrow> add_root d p = (d, None))
         \<and> (distinct rs
              \<and> (\<forall>q \<in> set (p # ps). q \<noteq> [] \<and> NL \<notin> set q \<and> CR \<notin> set q)
              \<and> (\<forall>q \<in> set (rs @ p # ps). \<forall>c \<in> set q. encodable c)
            \<longrightarrow> (\<exists>d1 rs1. add_root d p = (d1, None) \<and> add_root d1 p = (d1, None)
                     \<and> get_roots d1 = Inr rs1 \<and> rs1 = (if p \<in> set rs then rs else rs @ [p])
                     \<and> count_list rs1 p = 1)
                \<and> (\<exists>rs2. registry_after d (p # ps) = Inr rs2 \<and> distinct rs2
                     \<and> set rs2 = set rs \<union> set (p # ps)))"
proof (intro conjI impI)
  assume "p \<in> set rs"
  with assms show "add_root d p = (d, None)" by (rule add_root_present)
next
  assume h: "distinct rs
      \<and> (\<forall>q \<in> set (p # ps). q \<noteq> [] \<and> NL \<notin> set q \<and> CR \<notin> set q)
      \<and> (\<forall>q \<in> set (rs @ p # ps). \<forall>c \<in> set q. encodable c)"
  then have p: "one_line p" and dist: "distinct rs" by simp_all
  from h have enc: "\<forall>r \<in> set (rs @ [p]). \<forall>c \<in> set r. encodable c" by auto
  let ?rs1 = "if p \<in> set rs then rs else rs @ [p]"
  from add_root_registry [OF assms p enc] obtain d1
    where d1: "add_root d p = (d1, None)" "get_roots d1 = Inr ?rs1"
    by blast
  have mem: "p \<in> set ?rs1" by simp
  from d1(2) mem have again: "add_root d1 p = (d1, None)" by (rule add_root_present)
  have "distinct ?rs1" using dist by simp
  then have once: "count_list ?rs1 p = 1"
    using mem by (simp only: count_list_distinct if_True)
  from d1 again once
  show "\<exists>d1 rs1. add_root d p = (d1, None) \<and> add_root d1 p = (d1, None)
          \<and> get_roots d1 = Inr rs1 \<and> rs1 = (if p \<in> set rs then rs else rs @ [p])
          \<and> count_list rs1 p = 1"
    by blast
next
  assume h: "distinct rs
      \<and> (\<forall>q \<in> set (p # ps). q \<noteq> [] \<and> NL \<notin> set q \<and> CR \<notin> set q)
      \<and> (\<forall>q \<in> set (rs @ p # ps). \<forall>c \<in> set q. encodable c)"
  then have dist: "distinct rs" and lines: "\<forall>q \<in> set (p # ps). one_line q"
    and enc: "\<forall>r \<in> set (rs @ p # ps). \<forall>c \<in> set r. encodable c" by simp_all
  from add_roots_registry [OF assms dist lines enc]
  obtain d2 rs2 where "add_roots d (p # ps) = (d2, None)" "get_roots d2 = Inr rs2" "distinct rs2"
    "set rs2 = set rs \<union> set (p # ps)"
    by blast
  then show "\<exists>rs2. registry_after d (p # ps) = Inr rs2 \<and> distinct rs2
      \<and> set rs2 = set rs \<union> set (p # ps)"
    by (simp add: registry_after_def)
qed

theorem add_root_idempotent_unique_witness:
  "get_roots (Some (Text [])) = Inr [] \<and> distinct ([] :: pystr list)
   \<and> str ''/tmp/a'' \<noteq> [] \<and> NL \<notin> set (str ''/tmp/a'') \<and> CR \<notin> set (str ''/tmp/a'')
   \<and> str ''/tmp/b'' \<noteq> [] \<and> NL \<notin> set (str ''/tmp/b'') \<and> CR \<notin> set (str ''/tmp/b'')
   \<and> list_all encodable (str ''/tmp/a'') \<and> list_all encodable (str ''/tmp/b'')
   \<and> (\<exists>d1. add_root (Some (Text [])) (str ''/tmp/a'') = (d1, None)
          \<and> add_root d1 (str ''/tmp/a'') = (d1, None)
          \<and> get_roots d1 = Inr [str ''/tmp/a''] \<and> count_list [str ''/tmp/a''] (str ''/tmp/a'') = 1)
   \<and> (\<exists>rs2. registry_after (Some (Text [])) [str ''/tmp/a'', str ''/tmp/b'', str ''/tmp/a''] = Inr rs2
          \<and> distinct rs2 \<and> set rs2 = {str ''/tmp/a'', str ''/tmp/b''})"
proof -
  have h1: "get_roots (Some (Text [])) = Inr []"
    by (simp add: get_roots_def read_text_def)
  have h2: "distinct ([] :: pystr list)" by simp
  have a: "str ''/tmp/a'' \<noteq> [] \<and> NL \<notin> set (str ''/tmp/a'') \<and> CR \<notin> set (str ''/tmp/a'')"
    by (simp add: NL_def CR_def)
  have b: "str ''/tmp/b'' \<noteq> [] \<and> NL \<notin> set (str ''/tmp/b'') \<and> CR \<notin> set (str ''/tmp/b'')"
    by (simp add: NL_def CR_def)
  have e: "list_all encodable (str ''/tmp/a'') \<and> list_all encodable (str ''/tmp/b'')"
    by (simp add: encodable_def)
  have h3: "\<forall>q \<in> set [str ''/tmp/a'', str ''/tmp/b'', str ''/tmp/a''].
              q \<noteq> [] \<and> NL \<notin> set q \<and> CR \<notin> set q"
    using a b by simp
  have h4: "\<forall>q \<in> set ([] @ [str ''/tmp/a'', str ''/tmp/b'', str ''/tmp/a'']).
              \<forall>c \<in> set q. encodable c"
    using e by (simp add: list_all_iff)
  from add_root_idempotent_unique [OF h1, of "str ''/tmp/a''" "[str ''/tmp/b'', str ''/tmp/a'']"]
    h2 h3 h4
  have "(\<exists>d1 rs1. add_root (Some (Text [])) (str ''/tmp/a'') = (d1, None)
            \<and> add_root d1 (str ''/tmp/a'') = (d1, None)
            \<and> get_roots d1 = Inr rs1 \<and> rs1 = [str ''/tmp/a'']
            \<and> count_list rs1 (str ''/tmp/a'') = 1)
       \<and> (\<exists>rs2. registry_after (Some (Text [])) [str ''/tmp/a'', str ''/tmp/b'', str ''/tmp/a''] = Inr rs2
            \<and> distinct rs2 \<and> set rs2 = {} \<union> set [str ''/tmp/a'', str ''/tmp/b'', str ''/tmp/a''])"
    by simp
  then have "(\<exists>d1. add_root (Some (Text [])) (str ''/tmp/a'') = (d1, None)
            \<and> add_root d1 (str ''/tmp/a'') = (d1, None)
            \<and> get_roots d1 = Inr [str ''/tmp/a'']
            \<and> count_list [str ''/tmp/a''] (str ''/tmp/a'') = 1)
       \<and> (\<exists>rs2. registry_after (Some (Text [])) [str ''/tmp/a'', str ''/tmp/b'', str ''/tmp/a''] = Inr rs2
            \<and> distinct rs2 \<and> set rs2 = {str ''/tmp/a'', str ''/tmp/b''})"
    by auto
  with h1 h2 a b e show ?thesis by blast
qed

theorem add_root_line_break_counterexample:
  "registry_after (Some (Text [])) [two_line_dir, two_line_dir]
     = Inr [str ''/tmp/a'', str ''b'', str ''/tmp/a'', str ''b'']
   \<and> add_root (Some (Text (str ''/tmp/x'' @ [NL] @ str ''/tmp/y''))) surrogate_dir
     = (Some (Text []), Some UnicodeEncodeError)
   \<and> registry_after (Some (Text (str ''/tmp/x'' @ [NL] @ str ''/tmp/y''))) [surrogate_dir]
     = Inl UnicodeEncodeError"
  by (simp add: registry_after_def add_root_def get_roots_def read_text_def write_text_def
      two_line_dir_def surrogate_dir_def NL_def CR_def encodable_def)

text \<open>
  C9 (as amended). \<^verbatim>\<open>get_roots\<close> on a file that holds a text returns the lines of
  the text, split at the line ends (LF, CR LF and CR) and without the empty lines:
  every root returned is not empty and holds no line end, and a file of paths, one on
  each line, is read back as these paths. The file is created empty when the module is
  loaded if it does not exist then, and \<^verbatim>\<open>get_roots\<close> on that file returns the empty
  list. \<^verbatim>\<open>get_roots\<close> itself does not create the file: when the file is absent at the
  call, \<^verbatim>\<open>FileNotFoundError\<close> is raised, also out of the start of a round of the
  daemon; a file that is not a text raises \<^verbatim>\<open>UnicodeDecodeError\<close>.
\<close>

theorem get_roots_reads_lines:
  "get_roots (Some (Text t))
     = Inr (filter (\<lambda>root. root \<noteq> []) (split_on NL (universal_newlines t)))
   \<and> (\<forall>root \<in> set (filter (\<lambda>root. root \<noteq> []) (split_on NL (universal_newlines t))).
         root \<noteq> [] \<and> NL \<notin> set root \<and> CR \<notin> set root)
   \<and> ((\<forall>root \<in> set rs. root \<noteq> [] \<and> NL \<notin> set root \<and> CR \<notin> set root)
        \<longrightarrow> get_roots (Some (Text (join [NL] rs))) = Inr rs)
   \<and> module_init None = Some (Text [])
   \<and> get_roots (module_init None) = Inr []"
proof -
  have g: "get_roots (Some (Text t))
      = Inr (filter (\<lambda>root. root \<noteq> []) (split_on NL (universal_newlines t)))"
    by (rule get_roots_Text)
  have "\<forall>root \<in> set (filter (\<lambda>root. root \<noteq> []) (split_on NL (universal_newlines t))).
          one_line root"
    using get_roots_entries [OF g] by blast
  moreover have "(\<forall>root \<in> set rs. one_line root)
        \<longrightarrow> get_roots (Some (Text (join [NL] rs))) = Inr rs"
    using get_roots_join [of rs] by blast
  moreover have "module_init None = Some (Text [])"
    by (simp add: module_init_def)
  moreover have "get_roots (module_init None) = Inr []"
    by (simp add: module_init_def get_roots_def read_text_def)
  ultimately show ?thesis using g by blast
qed

theorem get_roots_reads_lines_witness:
  "get_roots (Some (Text (str ''/tmp/a'' @ [NL, NL] @ str ''/tmp/b'' @ [CR, NL])))
     = Inr [str ''/tmp/a'', str ''/tmp/b'']
   \<and> str ''/tmp/a'' \<noteq> [] \<and> NL \<notin> set (str ''/tmp/a'') \<and> CR \<notin> set (str ''/tmp/a'')
   \<and> str ''/tmp/b'' \<noteq> [] \<and> NL \<notin> set (str ''/tmp/b'') \<and> CR \<notin> set (str ''/tmp/b'')
   \<and> get_roots (Some (Text (str ''/tmp/a'' @ [NL] @ str ''/tmp/b'')))
     = Inr [str ''/tmp/a'', str ''/tmp/b'']"
proof -
  have f: "filter (\<lambda>root. root \<noteq> [])
          (split_on NL (universal_newlines (str ''/tmp/a'' @ [NL, NL] @ str ''/tmp/b'' @ [CR, NL])))
        = [str ''/tmp/a'', str ''/tmp/b'']"
    by (simp add: NL_def CR_def)
  have a: "str ''/tmp/a'' \<noteq> [] \<and> NL \<notin> set (str ''/tmp/a'') \<and> CR \<notin> set (str ''/tmp/a'')"
    and b: "str ''/tmp/b'' \<noteq> [] \<and> NL \<notin> set (str ''/tmp/b'') \<and> CR \<notin> set (str ''/tmp/b'')"
    by (simp_all add: NL_def CR_def)
  then have h: "\<forall>root \<in> set [str ''/tmp/a'', str ''/tmp/b''].
      root \<noteq> [] \<and> NL \<notin> set root \<and> CR \<notin> set root"
    by simp
  have j: "join [NL] [str ''/tmp/a'', str ''/tmp/b''] = str ''/tmp/a'' @ [NL] @ str ''/tmp/b''"
    by simp
  from get_roots_reads_lines [of "str ''/tmp/a'' @ [NL, NL] @ str ''/tmp/b'' @ [CR, NL]"
      "[str ''/tmp/a'', str ''/tmp/b'']"] h
  have "get_roots (Some (Text (str ''/tmp/a'' @ [NL, NL] @ str ''/tmp/b'' @ [CR, NL])))
      = Inr (filter (\<lambda>root. root \<noteq> [])
          (split_on NL (universal_newlines (str ''/tmp/a'' @ [NL, NL] @ str ''/tmp/b'' @ [CR, NL]))))"
    and "get_roots (Some (Text (join [NL] [str ''/tmp/a'', str ''/tmp/b''])))
      = Inr [str ''/tmp/a'', str ''/tmp/b'']"
    by blast+
  with f j a b show ?thesis by (simp only:) simp
qed

theorem get_roots_absent_counterexample:
  "get_roots None = Inl FileNotFoundError
   \<and> start_inotify (sample_env 0) sample_user_dir None = Inl FileNotFoundError
   \<and> get_roots (Some Undecodable) = Inl UnicodeDecodeError"
  by (simp add: get_roots_def read_text_def start_inotify_def)

section \<open>Claims about the command builder\<close>

text \<open>
  C1 (as amended). The command builder returns for every version text whose first run
  of digits and dots splits at the dots into parts that are not empty and have at most
  \<^const>\<open>int_max_str_digits\<close> digits: the version number has at least three entries and
  the result is the export command for it with the output path. There is no fallback
  to version 0.0.0 in either source file: a text without digit or dot (the empty text,
  pure text) raises \<^verbatim>\<open>IndexError\<close> at \<^verbatim>\<open>re.findall(...)[0]\<close>, a run with an empty
  part (\<^verbatim>\<open>1..2\<close>) raises \<^verbatim>\<open>ValueError\<close> at \<^verbatim>\<open>int\<close>, and so does a part of 4301
  digits, whereas the text \<^verbatim>\<open>0.0.0\<close> selects the legacy command.
\<close>

theorem command_builder_returns:
  assumes "findall_first v = Inr run"
    and "\<forall>part \<in> set (split_on (Ch (CHR ''.'')) run). part \<noteq> [] \<and> length part \<le> int_max_str_digits"
  shows "\<exists>vn cmd. inkscape_version_number v = Inr vn \<and> 3 \<le> length vn
           \<and> command_builder v p = Inr (cmd, pdf_path p)
           \<and> commandBuilder v p = Inr (cmd, pdf_path p)
           \<and> cmd = export_command vn p
           \<and> cmd \<in> {legacy_command p (pdf_path p), modern_command p (pdf_path p)}"
proof -
  have "\<forall>part \<in> set (split_on (Ch (CHR ''.'')) run).
          part \<noteq> [] \<and> set part \<subseteq> set digits \<and> length part \<le> int_max_str_digits"
    using assms version_part_digits [OF assms(1)] by blast
  from int_parts_digits [OF this] obtain ns
    where ns: "int_parts (split_on (Ch (CHR ''.'')) run) = Inr ns" by blast
  let ?vn = "ns @ replicate (3 - length ns) 0"
  from assms(1) ns have "inkscape_version_number v = Inr ?vn"
    by (simp add: inkscape_version_number_def)
  moreover have "3 \<le> length ?vn" by simp
  moreover have "export_command ?vn p
      \<in> {legacy_command p (pdf_path p), modern_command p (pdf_path p)}"
    by (simp add: export_command_def)
  ultimately show ?thesis
    by (simp add: command_builder_def commandBuilder_def script_versions)
qed

theorem command_builder_returns_witness:
  "findall_first (str ''0.0.0'') = Inr (str ''0.0.0'')
   \<and> split_on (Ch (CHR ''.'')) (str ''0.0.0'') = [str ''0'', str ''0'', str ''0'']
   \<and> command_builder (str ''0.0.0'') sample_figure
       = Inr (legacy_command sample_figure (pdf_path sample_figure), pdf_path sample_figure)"
proof -
  have f: "findall_first (str ''0.0.0'') = Inr (str ''0.0.0'')"
    by (rule version_examples)
  have s: "split_on (Ch (CHR ''.'')) (str ''0.0.0'') = [str ''0'', str ''0'', str ''0'']"
    by simp
  have h: "\<forall>part \<in> set (split_on (Ch (CHR ''.'')) (str ''0.0.0'')).
             part \<noteq> [] \<and> length part \<le> int_max_str_digits"
    by (simp add: int_max_str_digits_def)
  have n: "inkscape_version_number (str ''0.0.0'') = Inr [0, 0, 0]"
    by (rule version_zero)
  from command_builder_returns [OF f h, of sample_figure] n f s show ?thesis
    by (auto simp: export_command_def)
qed

theorem command_builder_no_version_counterexample:
  "command_builder [] sample_figure = Inl IndexError
   \<and> command_builder (str ''Inkscape'') sample_figure = Inl IndexError
   \<and> command_builder (str ''1..2'') sample_figure = Inl ValueError
   \<and> command_builder (replicate 4301 (Ch (CHR ''1''))) sample_figure = Inl ValueError
   \<and> command_builder (str ''0.0.0'') sample_figure
       = Inr ([str ''inkscape'', str ''--export-area-page'', str ''--export-dpi'', str ''300'',
               str ''--export-pdf'', str ''/tmp/a/figure.pdf'', str ''--export-latex'',
               str ''/tmp/a/figure.svg''],
              path_of (str ''/tmp/a/figure.pdf''))"
proof -
  have "command_builder [] sample_figure = Inl IndexError"
    "command_builder (str ''Inkscape'') sample_figure = Inl IndexError"
    "command_builder (str ''1..2'') sample_figure = Inl ValueError"
    by (simp_all add: command_builder_def inkscape_version_number_def findall_first_def
        is_version_char_def digits_def py_int_def digit_val_def int_max_str_digits_def)
  moreover have "inkscape_version_number (str ''0.0.0'') = Inr [0, 0, 0]"
    by (rule version_zero)
  then have "command_builder (str ''0.0.0'') sample_figure
       = Inr ([str ''inkscape'', str ''--export-area-page'', str ''--export-dpi'', str ''300'',
               str ''--export-pdf'', str ''/tmp/a/figure.pdf'', str ''--export-latex'',
               str ''/tmp/a/figure.svg''],
              pdf_path sample_figure)"
    by (simp add: command_builder_def export_command_def legacy_command_def sample_pdf_str
        sample_figure_str)
  moreover have "path_of (str ''/tmp/a/figure.pdf'') = pdf_path sample_figure"
    by (simp add: sample_pdf_path path_of_def splitroot_def)
  ultimately show ?thesis
    using long_version_part [of sample_figure] by simp
qed

text \<open>
  C2. When the first run of digits and dots of the version text splits into the
  integers \<open>ns\<close>, the command builder returns the legacy command (\<^verbatim>\<open>--export-pdf\<close>
  with the output path, the source path last) if \<open>ns\<close> padded with zeros to three
  entries is lexicographically below \<open>[1, 0, 0]\<close>, and the modern command (the source
  path first, \<^verbatim>\<open>--export-type=pdf\<close>, \<^verbatim>\<open>--export-filename\<close> with the output path)
  otherwise. The texts \<^verbatim>\<open>1.0.0\<close>, \<^verbatim>\<open>1.0\<close> and \<^verbatim>\<open>1.0.0rc1\<close> select the modern
  command, \<^verbatim>\<open>0.92.4\<close> the legacy one.
\<close>

theorem command_builder_decision:
  assumes "findall_first v = Inr run"
    and "int_parts (split_on (Ch (CHR ''.'')) run) = Inr ns"
  shows "command_builder v p =
           Inr (if (ns @ replicate (3 - length ns) 0, [1, 0, 0]) \<in> lexord {(a, b). a < b}
                then [str ''inkscape'', str ''--export-area-page'', str ''--export-dpi'',
                      str ''300'', str ''--export-pdf'', path_str (pdf_path p),
                      str ''--export-latex'', path_str p]
                else [str ''inkscape'', path_str p, str ''--export-area-page'',
                      str ''--export-dpi'', str ''300'', str ''--export-type=pdf'',
                      str ''--export-latex'', str ''--export-filename'', path_str (pdf_path p)],
                pdf_path p)"
  using assms
  by (simp add: command_builder_def inkscape_version_number_def export_command_cases
      legacy_command_def modern_command_def)

theorem command_builder_decision_witness:
  "command_builder (str ''1.0.0'') sample_figure
     = Inr (modern_command sample_figure (pdf_path sample_figure), pdf_path sample_figure)
   \<and> command_builder (str ''1.0'') sample_figure
     = Inr (modern_command sample_figure (pdf_path sample_figure), pdf_path sample_figure)
   \<and> command_builder (str ''1.0.0rc1'') sample_figure
     = Inr (modern_command sample_figure (pdf_path sample_figure), pdf_path sample_figure)
   \<and> command_builder (str ''0.92.4'') sample_figure
     = Inr (legacy_command sample_figure (pdf_path sample_figure), pdf_path sample_figure)"
  using command_builder_decision [OF version_examples(1) version_examples(6), of sample_figure]
    command_builder_decision [OF version_examples(2) version_examples(7), of sample_figure]
    command_builder_decision [OF version_examples(3) version_examples(6), of sample_figure]
    command_builder_decision [OF version_examples(4) version_examples(8), of sample_figure]
  by (simp add: legacy_command_def modern_command_def)

section \<open>Claims about the recompilation pipeline\<close>

text \<open>
  C5 (as amended). For a path with the suffix \<^verbatim>\<open>.svg\<close>, when the version probe
  returns a text from which a version number is read and the export command runs to
  its end with return code \<open>rc\<close>: the pipeline hands exactly one snippet to the
  clipboard, computed from the stem of the file, whatever \<open>rc\<close> is; an error is logged
  exactly when \<open>rc\<close> is not zero; and the converter is called twice, for the probe and
  for the export. When the probe itself fails (\<^verbatim>\<open>check_output\<close> raises
  \<^verbatim>\<open>CalledProcessError\<close> on a return code that is not zero) or prints no version,
  the exception leaves the pipeline before any snippet is made.
\<close>

theorem snippet_dispatched_once:
  assumes "path_suffix p = str ''.svg''"
    and "version_output env = Inr out"
    and "inkscape_version_number out = Inr vn"
    and "returncode env (export_command vn p) = Inr rc"
  shows "filter is_copy (fst (maybe_recompile_figure env template p))
           = [Copy (template (path_stem p) (beautify env (path_stem p)))]
         \<and> (Log ERROR \<in> set (fst (maybe_recompile_figure env template p)) \<longleftrightarrow> rc \<noteq> 0)
         \<and> filter is_converter (fst (maybe_recompile_figure env template p))
           = [Check_output [str ''inkscape'', str ''--version''], Run (export_command vn p)]"
  using assms by (simp add: maybe_recompile_figure_def Let_def split: option.splits)

theorem snippet_dispatched_once_witness:
  "path_suffix sample_figure = str ''.svg''
   \<and> inkscape_version_number (str ''Inkscape 1.2.0 (dc2aeda, 2022-05-15)'') = Inr [1, 2, 0]
   \<and> filter is_copy
        (fst (maybe_recompile_figure (sample_env 3) (latex_template (sample_env 3)) sample_figure))
       = [Copy (latex_template (sample_env 3) (str ''figure'') (str ''Figure''))]
   \<and> Log ERROR
       \<in> set (fst (maybe_recompile_figure (sample_env 3) (latex_template (sample_env 3))
                     sample_figure))"
proof -
  have v: "version_output (sample_env 3) = Inr (str ''Inkscape 1.2.0 (dc2aeda, 2022-05-15)'')"
    by (simp add: sample_env_def)
  have r: "returncode (sample_env 3) (export_command [1, 2, 0] sample_figure) = Inr 3"
    by (simp add: sample_env_def)
  from snippet_dispatched_once [OF sample_figure_suffix v sample_version r,
      of "latex_template (sample_env 3)"] sample_figure_suffix sample_version
  show ?thesis by (simp add: sample_figure_stem sample_beautify [simplified])
qed

theorem snippet_probe_failure_counterexample:
  "path_suffix sample_figure = str ''.svg''
   \<and> maybe_recompile_figure (sample_env 0\<lparr>version_output := Inl CalledProcessError\<rparr>)
        (latex_template (sample_env 0)) sample_figure
       = ([Log INFO, Check_output [str ''inkscape'', str ''--version'']], Some CalledProcessError)
   \<and> maybe_recompile_figure (sample_env 0\<lparr>version_output := Inr (str ''Inkscape'')\<rparr>)
        (latex_template (sample_env 0)) sample_figure
       = ([Log INFO, Check_output [str ''inkscape'', str ''--version''], Log DEBUG],
          Some IndexError)"
proof -
  have "inkscape_version_number (str ''Inkscape'') = Inl IndexError"
    by (simp add: inkscape_version_number_def findall_first_def is_version_char_def digits_def)
  then show ?thesis
    by (simp add: maybe_recompile_figure_def sample_figure_suffix sample_env_def)
qed

text \<open>
  C6. For a path whose suffix is not \<^verbatim>\<open>.svg\<close> the pipeline, in the package and in
  the script, logs once at debug level and returns: no call of the converter (neither
  probe nor export) and no snippet.
\<close>

theorem non_svg_discarded:
  assumes "path_suffix p \<noteq> str ''.svg''"
  shows "maybe_recompile_figure env template p = ([Log DEBUG], None)
         \<and> maybeRecompileFigure env p = ([Log DEBUG], None)
         \<and> filter is_converter (fst (maybe_recompile_figure env template p)) = []
         \<and> filter is_copy (fst (maybe_recompile_figure env template p)) = []"
  using assms by (simp add: maybe_recompile_figure_def maybeRecompileFigure_def)

theorem non_svg_discarded_witness:
  "path_suffix (path_of (str ''/tmp/a/figure.txt'')) = str ''.txt''
   \<and> maybe_recompile_figure (sample_env 0) (latex_template (sample_env 0))
        (path_of (str ''/tmp/a/figure.txt'')) = ([Log DEBUG], None)"
proof -
  have s: "path_suffix (path_of (str ''/tmp/a/figure.txt'')) = str ''.txt''"
    by (simp add: path_of_def splitroot_def path_suffix_def path_name_def rfind_def)
  then have "path_suffix (path_of (str ''/tmp/a/figure.txt'')) \<noteq> str ''.svg''"
    by simp
  from non_svg_discarded [OF this] s show ?thesis by simp
qed

section \<open>Claim about the two entry points\<close>

text \<open>
  C10. For every version text and every path the script builds the same argument
  vector and the same output path as the package; the whole routine of the script is
  that of the package with the script's template, and with any template the calls of
  the converter are the same. For a parsed path with the suffix \<^verbatim>\<open>.svg\<close> the output
  path lies in the directory of the source and its name is the stem of the source
  followed by \<^verbatim>\<open>.pdf\<close>.
\<close>

theorem entry_points_agree:
  "commandBuilder v p = command_builder v p
   \<and> maybeRecompileFigure env p = maybe_recompile_figure env (latexTemplate env) p
   \<and> filter is_converter (fst (maybeRecompileFigure env p))
       = filter is_converter (fst (maybe_recompile_figure env template p))
   \<and> (wf_path p \<and> path_suffix p = str ''.svg''
        \<longrightarrow> path_parent (pdf_path p) = path_parent p
            \<and> path_name (pdf_path p) = path_stem p @ str ''.pdf''
            \<and> path_stem (pdf_path p) = path_stem p
            \<and> path_suffix (pdf_path p) = str ''.pdf'')"
proof -
  have 1: "commandBuilder v p = command_builder v p"
    by (simp add: commandBuilder_def command_builder_def script_versions split: sum.splits)
  have 2: "filter is_converter (fst (maybeRecompileFigure env p))
       = filter is_converter (fst (maybe_recompile_figure env template p))"
    by (simp only: script_pipeline) (rule pipeline_converter_calls)
  have 3: "path_parent (pdf_path p) = path_parent p
            \<and> path_name (pdf_path p) = path_stem p @ str ''.pdf''
            \<and> path_stem (pdf_path p) = path_stem p
            \<and> path_suffix (pdf_path p) = str ''.pdf''"
    if wf: "wf_path p" and svg: "path_suffix p = str ''.svg''"
  proof -
    let ?s = "path_stem p"
    from svg have ne: "?s \<noteq> []"
      using path_suffix_name [of p "Ch (CHR ''.'')" "str ''svg''"] by simp
    have pp: "pdf_path p = Path (root p) (butlast (parts p) @ [?s @ str ''.pdf''])"
      using wf svg by (rule pdf_path_parts)
    then have n: "path_name (pdf_path p) = ?s @ str ''.pdf''"
      by (simp add: path_name_def)
    have "rfind (Ch (CHR ''.'')) (?s @ Ch (CHR ''.'') # str ''pdf'') = int (length ?s)"
      by (rule rfind_ext) simp
    then have i: "rfind (Ch (CHR ''.'')) (?s @ str ''.pdf'') = int (length ?s)"
      by simp
    from pp have "path_parent (pdf_path p) = path_parent p"
      by (simp add: path_parent_def)
    moreover from n i ne have "path_stem (pdf_path p) = ?s"
      by (simp add: path_stem_def Let_def)
    moreover from n i ne have "path_suffix (pdf_path p) = str ''.pdf''"
      by (simp add: path_suffix_def Let_def)
    ultimately show ?thesis using n by simp
  qed
  from 1 2 3 show ?thesis by (simp add: script_pipeline)
qed

theorem entry_points_agree_witness:
  "wf_path sample_figure \<and> path_suffix sample_figure = str ''.svg''
   \<and> commandBuilder (str ''Inkscape 1.2.0 (dc2aeda, 2022-05-15)'') sample_figure
       = command_builder (str ''Inkscape 1.2.0 (dc2aeda, 2022-05-15)'') sample_figure
   \<and> path_str (pdf_path sample_figure) = str ''/tmp/a/figure.pdf''
   \<and> path_parent (pdf_path sample_figure) = path_parent sample_figure
   \<and> path_stem (pdf_path sample_figure) = str ''figure''
   \<and> path_suffix (pdf_path sample_figure) = str ''.pdf''"
  using entry_points_agree [of "str ''Inkscape 1.2.0 (dc2aeda, 2022-05-15)''" sample_figure
      "sample_env 0" "latex_template (sample_env 0)"]
    sample_figure_wf sample_figure_suffix sample_figure_stem sample_pdf_str
  by simp

section \<open>Claims about the watch daemon\<close>

text \<open>
  C3 (as amended). Let \<open>p\<close> fit on one line of the registry file (not empty, no
  line feed, no carriage return) and let \<^verbatim>\<open>add_root\<close> of \<open>p\<close> complete without an
  exception. If \<^verbatim>\<open>add_watch\<close> succeeds on \<open>p\<close> and on the registry file, the next
  reload of the inotify daemon returns, and \<open>p\<close> is among the roots it read and in
  its table of watches. A directory whose name holds a line break is stored as two
  lines: after the reload the watches are on the two fragments and not on the
  directory, although \<^verbatim>\<open>add_watch\<close> would succeed on it.
\<close>

theorem added_root_watched_after_reload:
  assumes "p \<noteq> [] \<and> NL \<notin> set p \<and> CR \<notin> set p"
    and "add_root d p = (d1, None)"
    and "can_watch env p"
    and "can_watch env (path_str (roots_file user_dir))"
  shows "\<exists>w tr. reload_inotify env template user_dir w0 d1 = Inr (w, tr)
           \<and> p \<in> set (roots w) \<and> p \<in> set (watches w)"
proof -
  from assms(2) obtain rs where rs: "get_roots d = Inr rs"
    by (cases "get_roots d") (auto simp: add_root_def)
  let ?rs1 = "if p \<in> set rs then rs else rs @ [p]"
  from rs assms(1,2) have g1: "get_roots d1 = Inr ?rs1"
    by (rule add_root_completed)
  let ?f = "path_str (roots_file user_dir)"
  let ?w = "\<lparr>roots = ?rs1, watches = fst (add_watches env [?f] ?rs1)\<rparr>"
  have "start_inotify env user_dir d1
          = Inr (?w, Add_watch ?f # Log INFO # snd (add_watches env [?f] ?rs1))"
    using g1 assms(4) by (rule start_inotify_result)
  then have "reload_inotify env template user_dir w0 d1
          = Inr (?w, Log INFO # remove_watches (roots w0) @ Add_watch ?f # Log INFO
                       # snd (add_watches env [?f] ?rs1))"
    by (simp add: reload_inotify_result)
  moreover have "p \<in> set (roots ?w)" by simp
  moreover have "p \<in> set (watches ?w)"
    using add_watches_set [of env "[?f]" ?rs1] assms(3) by simp
  ultimately show ?thesis by blast
qed

theorem added_root_watched_after_reload_witness:
  "str ''/tmp/a'' \<noteq> [] \<and> NL \<notin> set (str ''/tmp/a'') \<and> CR \<notin> set (str ''/tmp/a'')
   \<and> add_root (Some (Text [])) (str ''/tmp/a'') = (Some (Text (str ''/tmp/a'')), None)
   \<and> can_watch (sample_env 0) (str ''/tmp/a'')
   \<and> can_watch (sample_env 0) (path_str (roots_file sample_user_dir))
   \<and> (\<exists>w tr. reload_inotify (sample_env 0) (latex_template (sample_env 0)) sample_user_dir
                 \<lparr>roots = [], watches = [path_str (roots_file sample_user_dir)]\<rparr>
                 (Some (Text (str ''/tmp/a''))) = Inr (w, tr)
          \<and> str ''/tmp/a'' \<in> set (watches w))"
proof -
  have a: "str ''/tmp/a'' \<noteq> [] \<and> NL \<notin> set (str ''/tmp/a'') \<and> CR \<notin> set (str ''/tmp/a'')"
    by (simp add: NL_def CR_def)
  have b: "add_root (Some (Text [])) (str ''/tmp/a'') = (Some (Text (str ''/tmp/a'')), None)"
    by (simp add: add_root_def get_roots_def read_text_def write_text_def encodable_def)
  have c: "can_watch (sample_env 0) (str ''/tmp/a'')"
    and d: "can_watch (sample_env 0) (path_str (roots_file sample_user_dir))"
    by (simp_all add: sample_env_def)
  from added_root_watched_after_reload [OF a b c d] a b c d show ?thesis by blast
qed

theorem added_root_line_break_counterexample:
  "add_root (Some (Text [])) two_line_dir = (Some (Text two_line_dir), None)
   \<and> can_watch (sample_env 0) two_line_dir
   \<and> reload_inotify (sample_env 0) (latex_template (sample_env 0)) sample_user_dir
        \<lparr>roots = [], watches = [str ''/home/u/.config/inkscape-figures/roots'']\<rparr>
        (Some (Text two_line_dir))
       = Inr (\<lparr>roots = [str ''/tmp/a'', str ''b''],
                watches = [str ''/home/u/.config/inkscape-figures/roots'', str ''/tmp/a'',
                           str ''b'']\<rparr>,
              [Log INFO, Add_watch (str ''/home/u/.config/inkscape-figures/roots''), Log INFO,
               Add_watch (str ''/tmp/a''), Add_watch (str ''b'')])
   \<and> two_line_dir \<notin> set [str ''/home/u/.config/inkscape-figures/roots'', str ''/tmp/a'', str ''b'']"
proof -
  have g: "get_roots (Some (Text two_line_dir)) = Inr [str ''/tmp/a'', str ''b'']"
    by (simp add: get_roots_def read_text_def two_line_dir_def NL_def CR_def)
  have "add_root (Some (Text [])) two_line_dir = (Some (Text two_line_dir), None)"
    by (simp add: add_root_def get_roots_def read_text_def write_text_def two_line_dir_def
        encodable_def NL_def)
  moreover have "can_watch (sample_env 0) two_line_dir"
    by (simp add: sample_env_def)
  moreover have "reload_inotify (sample_env 0) (latex_template (sample_env 0)) sample_user_dir
        \<lparr>roots = [], watches = [str ''/home/u/.config/inkscape-figures/roots'']\<rparr>
        (Some (Text two_line_dir))
       = Inr (\<lparr>roots = [str ''/tmp/a'', str ''b''],
                watches = [str ''/home/u/.config/inkscape-figures/roots'', str ''/tmp/a'',
                           str ''b'']\<rparr>,
              [Log INFO, Add_watch (str ''/home/u/.config/inkscape-figures/roots''), Log INFO,
               Add_watch (str ''/tmp/a''), Add_watch (str ''b'')])"
    by (simp add: reload_inotify_result start_inotify_def g sample_roots_file sample_env_def
        Let_def)
  moreover have "two_line_dir
      \<notin> set [str ''/home/u/.config/inkscape-figures/roots'', str ''/tmp/a'', str ''b'']"
    by (simp add: two_line_dir_def)
  ultimately show ?thesis by blast
qed

text \<open>
  C4 (as amended). An inotify event whose watch path is the registry file ends the
  inner loop for a reload: its effects are one log entry and the removal of the
  watches, without any call of the converter or of the clipboard. A line of
  \<^verbatim>\<open>fswatch\<close> that is the path of the registry file, once stripped, ends the inner
  loop in the same way, with the process terminated. Every other event for a file
  named \<^verbatim>\<open>roots\<close> is handed to the pipeline, which drops it at the extension filter:
  no call of the converter, and no reload. The registry file is reported by such an
  event when the configuration directory is itself a registered root: the watch on
  the directory reports the directory as the path and \<^verbatim>\<open>roots\<close> as the file name.
\<close>

theorem registry_event_reloads:
  "inotify_event env template user_dir w (path_str (roots_file user_dir), filename)
     = (Reload, Log INFO # remove_watches (roots w))
   \<and> filter is_converter
        (snd (inotify_event env template user_dir w (path_str (roots_file user_dir), filename))) = []
   \<and> filter is_copy
        (snd (inotify_event env template user_dir w (path_str (roots_file user_dir), filename))) = []
   \<and> (strip line = path_str (roots_file user_dir)
        \<longrightarrow> fswatch_line env template user_dir line = (Reload, [Log INFO, Terminate, Log DEBUG]))
   \<and> filter is_converter (snd (inotify_event env template user_dir w (dir, str ''roots''))) = []
   \<and> (path_name (path_of (strip line)) = str ''roots''
        \<longrightarrow> filter is_converter (snd (fswatch_line env template user_dir line)) = [])"
proof -
  have 1: "inotify_event env template user_dir w (path_str (roots_file user_dir), filename)
             = (Reload, Log INFO # remove_watches (roots w))"
    by (simp add: inotify_event_def)
  have 2: "strip line = path_str (roots_file user_dir)
        \<longrightarrow> fswatch_line env template user_dir line = (Reload, [Log INFO, Terminate, Log DEBUG])"
    by (simp add: fswatch_line_def)
  have 3: "filter is_converter (snd (inotify_event env template user_dir w (dir, str ''roots''))) = []"
  proof (cases "dir = path_str (roots_file user_dir)")
    case True
    then show ?thesis by (simp add: inotify_event_def remove_watches_no_converter)
  next
    case False
    have "maybe_recompile_figure env template (path_join (path_of dir) (str ''roots''))
            = ([Log DEBUG], None)"
      by (rule roots_name_discarded) (rule path_join_roots_name)
    with False show ?thesis by (simp add: inotify_event_def)
  qed
  have 4: "filter is_converter (snd (fswatch_line env template user_dir line)) = []"
    if "path_name (path_of (strip line)) = str ''roots''"
  proof (cases "strip line = path_str (roots_file user_dir)")
    case True
    then show ?thesis by (simp add: fswatch_line_def)
  next
    case False
    from that have "maybe_recompile_figure env template (path_of (strip line))
            = ([Log DEBUG], None)"
      by (rule roots_name_discarded)
    with False show ?thesis by (simp add: fswatch_line_def)
  qed
  from 1 2 3 4 show ?thesis
    by (simp add: remove_watches_no_converter remove_watches_no_copy)
qed

theorem registry_event_reloads_witness:
  "inotify_event (sample_env 0) (latex_template (sample_env 0)) sample_user_dir
      \<lparr>roots = [str ''/tmp/a''], watches = []\<rparr> (str ''/home/u/.config/inkscape-figures/roots'', [])
     = (Reload, [Log INFO, Remove_watch (str ''/tmp/a''), Log DEBUG])
   \<and> strip (str ''/home/u/.config/inkscape-figures/roots'' @ [NL])
       = path_str (roots_file sample_user_dir)
   \<and> fswatch_line (sample_env 0) (latex_template (sample_env 0)) sample_user_dir
        (str ''/home/u/.config/inkscape-figures/roots'' @ [NL])
     = (Reload, [Log INFO, Terminate, Log DEBUG])"
proof -
  have s: "strip (str ''/home/u/.config/inkscape-figures/roots'' @ [NL])
             = path_str (roots_file sample_user_dir)"
    by (simp add: sample_roots_file strip_def is_space_def NL_def)
  from registry_event_reloads [of "sample_env 0" "latex_template (sample_env 0)" sample_user_dir
      "\<lparr>roots = [str ''/tmp/a''], watches = []\<rparr>" "[]"
      "str ''/home/u/.config/inkscape-figures/roots'' @ [NL]"] s
  show ?thesis by (simp add: sample_roots_file)
qed

theorem registry_event_directory_watch_counterexample:
  "path_str sample_user_dir = str ''/home/u/.config/inkscape-figures''
   \<and> path_str (path_join (path_of (str ''/home/u/.config/inkscape-figures'')) (str ''roots''))
       = path_str (roots_file sample_user_dir)
   \<and> inotify_event (sample_env 0) (latex_template (sample_env 0)) sample_user_dir
        \<lparr>roots = [str ''/home/u/.config/inkscape-figures''],
          watches = [str ''/home/u/.config/inkscape-figures/roots'',
                     str ''/home/u/.config/inkscape-figures'']\<rparr>
        (str ''/home/u/.config/inkscape-figures'', str ''roots'')
       = (Watching, [Log DEBUG])"
proof -
  have "path_str sample_user_dir = str ''/home/u/.config/inkscape-figures''"
    by (simp add: sample_user_dir_def path_of_def splitroot_def path_str_def)
  moreover have "path_str (path_join (path_of (str ''/home/u/.config/inkscape-figures''))
        (str ''roots'')) = path_str (roots_file sample_user_dir)"
    by (simp add: roots_file_def sample_user_dir_def)
  moreover have "maybe_recompile_figure (sample_env 0) (latex_template (sample_env 0))
        (path_join (path_of (str ''/home/u/.config/inkscape-figures'')) (str ''roots''))
      = ([Log DEBUG], None)"
    by (rule roots_name_discarded) (rule path_join_roots_name)
  then have "inotify_event (sample_env 0) (latex_template (sample_env 0)) sample_user_dir
        \<lparr>roots = [str ''/home/u/.config/inkscape-figures''],
          watches = [str ''/home/u/.config/inkscape-figures/roots'',
                     str ''/home/u/.config/inkscape-figures'']\<rparr>
        (str ''/home/u/.config/inkscape-figures'', str ''roots'')
       = (Watching, [Log DEBUG])"
    by (simp add: inotify_event_def sample_roots_file)
  ultimately show ?thesis by simp
qed

text \<open>
  C8. When the registry can be read and \<^verbatim>\<open>add_watch\<close> succeeds on the registry file
  itself (that call is outside any \<^verbatim>\<open>try\<close>), the start of the inotify daemon and
  every reload return, whatever roots fail: \<^verbatim>\<open>add_watch\<close> is attempted on every
  root in turn, the table of watches holds the registry file and exactly the roots on
  which it succeeds, and each failure is logged once at debug level.
\<close>

theorem registration_continues:
  assumes "get_roots d = Inr rs" and "can_watch env (path_str (roots_file user_dir))"
  shows "\<exists>w tr. start_inotify env user_dir d = Inr (w, tr)
           \<and> reload_inotify env template user_dir w0 d
               = Inr (w, Log INFO # remove_watches (roots w0) @ tr)
           \<and> roots w = rs
           \<and> set (watches w) = {path_str (roots_file user_dir)} \<union> {r \<in> set rs. can_watch env r}
           \<and> length (filter (\<lambda>e. e = Log DEBUG) tr) = length (filter (\<lambda>r. \<not> can_watch env r) rs)
           \<and> filter (\<lambda>e. e \<noteq> Log DEBUG \<and> e \<noteq> Log INFO) tr
               = map Add_watch (path_str (roots_file user_dir) # rs)"
proof -
  let ?f = "path_str (roots_file user_dir)"
  let ?ws = "fst (add_watches env [?f] rs)"
  let ?tr = "snd (add_watches env [?f] rs)"
  let ?w = "\<lparr>roots = rs, watches = ?ws\<rparr>"
  have st: "start_inotify env user_dir d = Inr (?w, Add_watch ?f # Log INFO # ?tr)"
    using assms by (rule start_inotify_result)
  then have re: "reload_inotify env template user_dir w0 d
      = Inr (?w, Log INFO # remove_watches (roots w0) @ Add_watch ?f # Log INFO # ?tr)"
    by (simp add: reload_inotify_result)
  have s: "set ?ws = {?f} \<union> {r \<in> set rs. can_watch env r}"
    using add_watches_set [of env "[?f]" rs] by simp
  have l: "length (filter (\<lambda>e. e = Log DEBUG) ?tr) = length (filter (\<lambda>r. \<not> can_watch env r) rs)"
    by (rule add_watches_log)
  have "filter (\<lambda>e. e \<noteq> Log INFO) (filter (\<lambda>e. e \<noteq> Log DEBUG) ?tr) = map Add_watch rs"
    by (simp add: add_watches_attempts filter_id_conv)
  then have a: "filter (\<lambda>e. e \<noteq> Log DEBUG \<and> e \<noteq> Log INFO) ?tr = map Add_watch rs"
    by (simp add: conj_commute)
  from st re s l a show ?thesis by simp
qed

theorem registration_continues_witness:
  "get_roots (Some (Text (str ''/gone'' @ [NL] @ str ''/tmp/a''))) = Inr [str ''/gone'', str ''/tmp/a'']
   \<and> can_watch (sample_env 0\<lparr>can_watch := (\<lambda>r. r \<noteq> str ''/gone'')\<rparr>)
        (path_str (roots_file sample_user_dir))
   \<and> (\<exists>w tr. start_inotify (sample_env 0\<lparr>can_watch := (\<lambda>r. r \<noteq> str ''/gone'')\<rparr>)
                 sample_user_dir (Some (Text (str ''/gone'' @ [NL] @ str ''/tmp/a''))) = Inr (w, tr)
          \<and> set (watches w) = {str ''/home/u/.config/inkscape-figures/roots'', str ''/tmp/a''}
          \<and> length (filter (\<lambda>e. e = Log DEBUG) tr) = 1)"
proof -
  let ?env = "sample_env 0\<lparr>can_watch := (\<lambda>r. r \<noteq> str ''/gone'')\<rparr>"
  let ?d = "Some (Text (str ''/gone'' @ [NL] @ str ''/tmp/a''))"
  have g: "get_roots ?d = Inr [str ''/gone'', str ''/tmp/a'']"
    by (simp add: get_roots_def read_text_def NL_def CR_def)
  have c: "can_watch ?env (path_str (roots_file sample_user_dir))"
    by (simp add: sample_roots_file sample_env_def)
  have e: "{r \<in> set [str ''/gone'', str ''/tmp/a'']. can_watch ?env r} = {str ''/tmp/a''}"
    by (auto simp: sample_env_def)
  have n: "length (filter (\<lambda>r. \<not> can_watch ?env r) [str ''/gone'', str ''/tmp/a'']) = 1"
    by (simp add: sample_env_def)
  from registration_continues [OF g c, of "latex_template ?env" "\<lparr>roots = [], watches = []\<rparr>"]
  obtain w tr where "start_inotify ?env sample_user_dir ?d = Inr (w, tr)"
    and "set (watches w) = {path_str (roots_file sample_user_dir)}
           \<union> {r \<in> set [str ''/gone'', str ''/tmp/a'']. can_watch ?env r}"
    and "length (filter (\<lambda>e. e = Log DEBUG) tr)
           = length (filter (\<lambda>r. \<not> can_watch ?env r) [str ''/gone'', str ''/tmp/a''])"
    by blast
  with g c e n show ?thesis by (auto simp: sample_roots_file)
qed

end
